theory Spec2Isabelle
  imports Complex_Main "HOL-Library.Word"
begin

section \<open>Data model of \<^verbatim>\<open>src/wasm/main.ts\<close>\<close>

subsection \<open>Numbers\<close>

text \<open>
  A JavaScript \<^verbatim>\<open>number\<close> is an IEEE 754 double. A value of type \<open>number\<close> is the real number
  that a finite double stands for, and every arithmetic operation of the source is the exact
  operation followed by the rounding of the result to the nearest double, ties to the even
  significand (\<open>fl\<close>): \<^verbatim>\<open>a * b\<close> is \<open>fmul a b\<close>, \<^verbatim>\<open>a + b\<close> is \<open>fadd a b\<close>, \<^verbatim>\<open>a - b\<close> is
  \<open>fsub a b\<close> and \<^verbatim>\<open>a / b\<close> is \<open>fdiv a b\<close>. \<^verbatim>\<open>Math.floor\<close> is exact, and is the floor \<open>\<lfloor>_\<rfloor>\<close>.
  \<open>pow2 k\<close> is \<open>2\<close> to the power \<open>k\<close>, \<open>binade x\<close> the exponent of the binade of \<open>x\<close> (that of the
  subnormal numbers below \<open>2\<close> to the \<open>-1022\<close>), and a double of that binade is an integer
  multiple of \<open>pow2 (binade x - 52)\<close>. \<^verbatim>\<open>NaN\<close>, the infinities, the sign of zero and results
  beyond the largest double are not modelled; the source divides by 3 and by 2 only.
\<close>

type_synonym number = real

definition pow2 :: "int \<Rightarrow> real" where
  "pow2 k = (if 0 \<le> k then 2 ^ nat k else 1 / 2 ^ nat (- k))"

definition binade :: "real \<Rightarrow> int" where
  "binade x = max \<lfloor>log 2 \<bar>x\<bar>\<rfloor> (- 1022)"

text \<open>The integer nearest to \<open>q\<close>, the even one of the two when \<open>q\<close> lies half way.\<close>

definition rne :: "real \<Rightarrow> int" where
  "rne q =
    (let f = \<lfloor>q\<rfloor>; r = q - of_int f
     in if r < 1 / 2 then f else if 1 / 2 < r then f + 1 else if even f then f else f + 1)"

definition fl :: "real \<Rightarrow> number" where
  "fl x = (if x = 0 then 0 else of_int (rne (x / pow2 (binade x - 52))) * pow2 (binade x - 52))"

definition fmul :: "number \<Rightarrow> number \<Rightarrow> number" where
  "fmul a b = fl (a * b)"

definition fadd :: "number \<Rightarrow> number \<Rightarrow> number" where
  "fadd a b = fl (a + b)"

definition fsub :: "number \<Rightarrow> number \<Rightarrow> number" where
  "fsub a b = fl (a - b)"

definition fdiv :: "number \<Rightarrow> number \<Rightarrow> number" where
  "fdiv a b = fl (a / b)"

subsection \<open>Strings\<close>

text \<open>
  A JavaScript string is a sequence of UTF-16 code units. The text of a text run, which the
  source measures (\<^verbatim>\<open>text.length\<close>) and indexes (\<^verbatim>\<open>text[i]\<close>) by code unit, is a list of
  16-bit words; \<open>utf16\<close> gives the code units of a string of ASCII characters. The strings
  that the source only stores, hands on, or compares with ASCII names (colours, font names,
  key names, messages) are of type \<open>string\<close>. A text built by concatenation with a number
  is kept in pieces: \<open>Num n\<close> is the text that JavaScript gives the integer \<open>n\<close>.
\<close>

definition utf16 :: "string \<Rightarrow> 16 word list" where
  "utf16 s = map (\<lambda>c. of_nat (of_char c)) s"

datatype text_piece = Lit string | Num int

subsection \<open>Messages\<close>

text \<open>
  The message types are declared outside \<^verbatim>\<open>main.ts\<close>; their shape is read off the places that
  build and consume them. A draw event is a pair of a method name of \<^verbatim>\<open>ScreenCanvas\<close> and its
  positional arguments (\<^verbatim>\<open>this[method].apply(this, args)\<close>): one constructor per method.
\<close>

datatype DrawEventMessage =
    SetColorFG string
  | SetColorBG string
  | SetColorSP string
  | SetFont string number
  | DrawRect number number number number string bool
  | DrawText "16 word list" number number number number number bool bool bool bool
  | InvertRect number number number number
  | ImageScroll number number number number number

text \<open>
  \<^verbatim>\<open>{kind: 'start', buffer, canvasDomHeight, canvasDomWidth, debug}\<close> (the buffer is the
  handle of the shared cell and carries no value of its own),
  \<^verbatim>\<open>{kind: 'resize', height, width}\<close> and
  \<^verbatim>\<open>{kind: 'key', code, keyCode, key, ctrl, shift, alt, meta}\<close>.
\<close>

datatype MessageFromMain =
    StartMsg number number bool
  | ResizeMsg number number
  | KeyMsg string int string bool bool bool bool

text \<open>\<open>Other k\<close> is a message whose \<^verbatim>\<open>kind\<close> is none of the four the switch names.\<close>

datatype MessageFromWorker =
    Draw DrawEventMessage
  | Started
  | Exit
  | Fatal string
  | Other string

text \<open>
  What can be thrown: an \<^verbatim>\<open>Error\<close> with its message, thrown by the source, and a
  \<^verbatim>\<open>DOMException\<close> with its name, thrown by the canvas.
\<close>

datatype js_error = Error string | DOMException string

subsection \<open>VimWorker\<close>

text \<open>
  \<^verbatim>\<open>sharedBuffer\<close> is an \<^verbatim>\<open>Int32Array\<close> of exactly one element over a fresh
  \<^verbatim>\<open>SharedArrayBuffer\<close>; it is only ever accessed at index 0, and is modelled by that element.
  \<open>calls\<close> records, in order, what the main thread did to the worker: the atomic stores and
  the messages handed to \<^verbatim>\<open>worker.postMessage\<close>.
\<close>

datatype worker_call =
    AtomicsStore nat "32 word"
  | PostMessage MessageFromMain

record VimWorker =
  sharedBuffer :: "32 word"
  calls :: "worker_call list"

definition new_VimWorker :: VimWorker where
  "new_VimWorker = \<lparr>sharedBuffer = 0, calls = []\<rparr>"

definition sendMessage :: "MessageFromMain \<Rightarrow> VimWorker \<Rightarrow> VimWorker" where
  "sendMessage msg w = w\<lparr>calls := calls w @ [PostMessage msg]\<rparr>"

definition awakeWorkerThread :: "VimWorker \<Rightarrow> VimWorker" where
  "awakeWorkerThread w = w\<lparr>sharedBuffer := 1, calls := calls w @ [AtomicsStore 0 1]\<rparr>"

fun posted :: "worker_call list \<Rightarrow> MessageFromMain list" where
  "posted [] = []"
| "posted (PostMessage m # cs) = m # posted cs"
| "posted (AtomicsStore i v # cs) = posted cs"

fun wakes :: "worker_call list \<Rightarrow> nat" where
  "wakes [] = 0"
| "wakes (AtomicsStore i v # cs) = Suc (wakes cs)"
| "wakes (PostMessage m # cs) = wakes cs"

subsection \<open>InputHandler\<close>

record KeyboardEvent =
  key :: string
  code :: string
  keyCode :: int
  ctrlKey :: bool
  shiftKey :: bool
  altKey :: bool
  metaKey :: bool
  defaultPrevented :: bool
  propagationStopped :: bool

definition onKeydown :: "KeyboardEvent \<Rightarrow> VimWorker \<Rightarrow> KeyboardEvent \<times> VimWorker" where
  "onKeydown event w =
    (let ev = event\<lparr>defaultPrevented := True, propagationStopped := True\<rparr>;
         k = key event;
         ctrl = ctrlKey event;
         shift = shiftKey event;
         alt = altKey event;
         meta = metaKey event
     in if length k > 1 \<and>
           (k = ''Unidentified'' \<or>
            (ctrl \<and> k = ''Control'') \<or>
            (shift \<and> k = ''Shift'') \<or>
            (alt \<and> k = ''Alt'') \<or>
            (meta \<and> k = ''Meta''))
        then (ev, w)
        else (ev, sendMessage (KeyMsg (code event) (keyCode event) k ctrl shift alt meta)
                    (awakeWorkerThread w)))"

subsection \<open>The 2D context of the canvas\<close>

text \<open>
  The context keeps its drawing state, the current path, and the bitmap of the canvas.
  Every call that paints is recorded in \<open>painted\<close>, with the coordinates and the drawing
  state it was made with. How the browser turns a fill, a glyph, a stroke or a copied image
  into pixels (fonts, anti-aliasing, the parsing of colours) is a parameter of the model,
  about which nothing is assumed: \<open>rasterise c p b\<close> is the bitmap that painting \<open>p\<close> makes of
  the bitmap \<open>b\<close>. \<^verbatim>\<open>getImageData\<close> and \<^verbatim>\<open>putImageData\<close> read and write the bitmap pixel by
  pixel; the context is created with \<^verbatim>\<open>alpha: false\<close>, so that a pixel written is read back
  as it was written. \<open>fillStyle\<close>, \<open>strokeStyle\<close>, \<open>font\<close> and \<open>textBaseline\<close> record the value
  last assigned to them; whether the browser accepts that value as a colour or a font is
  not modelled.
\<close>

type_synonym pixel = "8 word \<times> 8 word \<times> 8 word \<times> 8 word"

datatype path_cmd =
    PathRect int int int int
  | MoveTo int int
  | LineTo int int

datatype paint =
    FillRect int int int int string
  | FillText "16 word list" int int "text_piece list" string string
  | Stroke "path_cmd list" string number "int list"
  | PutImageData int int nat nat
  | DrawImage int int int int int int int int

record CanvasRenderingContext2D =
  canvas_width :: nat
  canvas_height :: nat
  bitmap :: "int \<Rightarrow> int \<Rightarrow> pixel"
  rasterise :: "paint \<Rightarrow> (int \<Rightarrow> int \<Rightarrow> pixel) \<Rightarrow> int \<Rightarrow> int \<Rightarrow> pixel"
  fillStyle :: string
  strokeStyle :: string
  font :: "text_piece list"
  textBaseline :: string
  lineWidth :: number
  lineDash :: "int list"
  path :: "path_cmd list"
  painted :: "paint list"

record ImageData =
  img_width :: nat
  img_height :: nat
  data :: "8 word list"

text \<open>A painting call: it is recorded, and the bitmap becomes what the browser makes of it.\<close>

definition paint_on :: "paint \<Rightarrow> CanvasRenderingContext2D \<Rightarrow> CanvasRenderingContext2D" where
  "paint_on p c = c\<lparr>painted := painted c @ [p], bitmap := rasterise c p (bitmap c)\<rparr>"

definition fillRect :: "int \<Rightarrow> int \<Rightarrow> int \<Rightarrow> int \<Rightarrow> CanvasRenderingContext2D \<Rightarrow> CanvasRenderingContext2D" where
  "fillRect x y w h c = paint_on (FillRect x y w h (fillStyle c)) c"

text \<open>\<^verbatim>\<open>ctx.rect\<close> adds a closed rectangle to the current path and paints nothing.\<close>

definition rect :: "int \<Rightarrow> int \<Rightarrow> int \<Rightarrow> int \<Rightarrow> CanvasRenderingContext2D \<Rightarrow> CanvasRenderingContext2D" where
  "rect x y w h c = c\<lparr>path := path c @ [PathRect x y w h]\<rparr>"

definition fillText :: "16 word list \<Rightarrow> int \<Rightarrow> int \<Rightarrow> CanvasRenderingContext2D \<Rightarrow> CanvasRenderingContext2D" where
  "fillText t x y c = paint_on (FillText t x y (font c) (fillStyle c) (textBaseline c)) c"

definition beginPath :: "CanvasRenderingContext2D \<Rightarrow> CanvasRenderingContext2D" where
  "beginPath c = c\<lparr>path := []\<rparr>"

definition moveTo :: "int \<Rightarrow> int \<Rightarrow> CanvasRenderingContext2D \<Rightarrow> CanvasRenderingContext2D" where
  "moveTo x y c = c\<lparr>path := path c @ [MoveTo x y]\<rparr>"

definition lineTo :: "int \<Rightarrow> int \<Rightarrow> CanvasRenderingContext2D \<Rightarrow> CanvasRenderingContext2D" where
  "lineTo x y c = c\<lparr>path := path c @ [LineTo x y]\<rparr>"

definition stroke :: "CanvasRenderingContext2D \<Rightarrow> CanvasRenderingContext2D" where
  "stroke c = paint_on (Stroke (path c) (strokeStyle c) (lineWidth c) (lineDash c)) c"

text \<open>
  An assignment to \<^verbatim>\<open>lineWidth\<close> of a value that is not positive is ignored, and so is a
  call of \<^verbatim>\<open>setLineDash\<close> with a negative segment; a dash list of odd length is doubled.
\<close>

definition set_lineWidth :: "number \<Rightarrow> CanvasRenderingContext2D \<Rightarrow> CanvasRenderingContext2D" where
  "set_lineWidth v c = (if 0 < v then c\<lparr>lineWidth := v\<rparr> else c)"

definition setLineDash :: "int list \<Rightarrow> CanvasRenderingContext2D \<Rightarrow> CanvasRenderingContext2D" where
  "setLineDash segments c =
     (if list_ex (\<lambda>v. v < 0) segments then c
      else c\<lparr>lineDash := (if odd (length segments) then segments @ segments else segments)\<rparr>)"

definition channel :: "pixel \<Rightarrow> nat \<Rightarrow> 8 word" where
  "channel p k =
     (case p of (r, g, b, a) \<Rightarrow> if k = 0 then r else if k = 1 then g else if k = 2 then b else a)"

definition in_canvas :: "CanvasRenderingContext2D \<Rightarrow> int \<Rightarrow> int \<Rightarrow> bool" where
  "in_canvas c x y \<longleftrightarrow> 0 \<le> x \<and> x < int (canvas_width c) \<and> 0 \<le> y \<and> y < int (canvas_height c)"

text \<open>
  \<^verbatim>\<open>getImageData(sx, sy, sw, sh)\<close>. A width or a height of zero raises \<^verbatim>\<open>IndexSizeError\<close>.
  A negative width or height is measured backwards from the corner: the image has
  \<open>\<bar>sw\<bar>\<close> by \<open>\<bar>sh\<bar>\<close> pixels, those of the rectangle whose left column is \<open>sx + sw\<close> and whose top
  row is \<open>sy + sh\<close>. The image holds the RGBA bytes of the pixels row by row, four per pixel;
  a pixel outside the canvas reads as transparent black. (The browser takes the four
  arguments as 32-bit integers and may refuse an image too large to allocate; the model
  takes them as they are.)
\<close>

definition getImageData ::
  "int \<Rightarrow> int \<Rightarrow> int \<Rightarrow> int \<Rightarrow> CanvasRenderingContext2D \<Rightarrow> js_error + ImageData" where
  "getImageData sx sy sw sh c =
    (if sw = 0 \<or> sh = 0 then Inl (DOMException ''IndexSizeError'')
     else
       (let W = nat \<bar>sw\<bar>;
            H = nat \<bar>sh\<bar>;
            x0 = (if sw < 0 then sx + sw else sx);
            y0 = (if sh < 0 then sy + sh else sy)
        in Inr \<lparr>img_width = W, img_height = H,
                data = map (\<lambda>j. let p = j div 4; x = x0 + int (p mod W); y = y0 + int (p div W)
                                in channel (if in_canvas c x y then bitmap c x y else (0, 0, 0, 0))
                                     (j mod 4))
                           [0 ..< 4 * W * H]\<rparr>))"

text \<open>
  \<^verbatim>\<open>putImageData(img, dx, dy)\<close>: the pixels of the image that fall on the canvas, the corner
  of the image at \<open>(dx, dy)\<close>.
\<close>

definition putImageData :: "ImageData \<Rightarrow> int \<Rightarrow> int \<Rightarrow> CanvasRenderingContext2D \<Rightarrow> CanvasRenderingContext2D" where
  "putImageData img dx dy c =
    c\<lparr>bitmap := (\<lambda>x y.
         if dx \<le> x \<and> x < dx + int (img_width img) \<and> dy \<le> y \<and> y < dy + int (img_height img)
            \<and> in_canvas c x y
         then (let j = 4 * (nat (y - dy) * img_width img + nat (x - dx))
               in (data img ! j, data img ! (j + 1), data img ! (j + 2), data img ! (j + 3)))
         else bitmap c x y),
       painted := painted c @ [PutImageData dx dy (img_width img) (img_height img)]\<rparr>"

text \<open>
  \<^verbatim>\<open>drawImage(canvas, sx, sy, sw, sh, dx, dy, dw, dh)\<close> with the canvas of the context itself
  as the image: a canvas without pixels raises \<^verbatim>\<open>InvalidStateError\<close>, and a source
  rectangle of width or height zero paints nothing.
\<close>

definition drawImage ::
  "int \<Rightarrow> int \<Rightarrow> int \<Rightarrow> int \<Rightarrow> int \<Rightarrow> int \<Rightarrow> int \<Rightarrow> int \<Rightarrow> CanvasRenderingContext2D \<Rightarrow>
   js_error + CanvasRenderingContext2D" where
  "drawImage sx sy sw sh dx dy dw dh c =
    (if canvas_width c = 0 \<or> canvas_height c = 0 then Inl (DOMException ''InvalidStateError'')
     else if sw = 0 \<or> sh = 0 then Inr c
     else Inr (paint_on (DrawImage sx sy sw sh dx dy dw dh) c))"

subsection \<open>The browser window\<close>

text \<open>
  What the source uses of the browser. \<open>canvasRect\<close> is what
  \<^verbatim>\<open>canvas.getBoundingClientRect()\<close> returns at the moment it is called;
  \<open>resizeListener\<close> says whether \<^verbatim>\<open>onResize\<close> is registered for \<^verbatim>\<open>resize\<close> (registering
  the same listener twice registers it once); \<open>timers\<close> are the pending timeouts, each a
  token and the time in milliseconds it is due (the source has a single \<^verbatim>\<open>setTimeout\<close>, so
  every timer runs the same callback); \<open>rafRequests\<close> counts the pending registrations of
  \<^verbatim>\<open>onAnimationFrame\<close> with \<^verbatim>\<open>requestAnimationFrame\<close>; \<open>alerts\<close> are the messages
  shown with \<^verbatim>\<open>alert\<close>, \<open>uncaught\<close> the errors thrown out of an event handler or a
  callback; \<open>rasteriser\<close> is how this browser paints, handed to the context of its canvas.
\<close>

record DOMRect =
  height :: number
  width :: number

record Window =
  devicePixelRatio :: number
  canvasRect :: DOMRect
  resizeListener :: bool
  timers :: "(nat \<times> nat) list"
  nextTimer :: nat
  now :: nat
  rafRequests :: nat
  alerts :: "string list"
  uncaught :: "js_error list"
  rasteriser :: "paint \<Rightarrow> (int \<Rightarrow> int \<Rightarrow> pixel) \<Rightarrow> int \<Rightarrow> int \<Rightarrow> pixel"

text \<open>\<^verbatim>\<open>window.devicePixelRatio || 1\<close>: 1 when the ratio is falsy.\<close>

definition dpr_of :: "Window \<Rightarrow> number" where
  "dpr_of win = (if devicePixelRatio win = 0 then 1 else devicePixelRatio win)"

definition setTimeout :: "nat \<Rightarrow> Window \<Rightarrow> nat \<times> Window" where
  "setTimeout ms win =
    (let tok = nextTimer win
     in (tok, win\<lparr>nextTimer := Suc tok, timers := timers win @ [(tok, now win + ms)]\<rparr>))"

definition clearTimeout :: "nat \<Rightarrow> Window \<Rightarrow> Window" where
  "clearTimeout tok win = win\<lparr>timers := filter (\<lambda>(k, t). k \<noteq> tok) (timers win)\<rparr>"

subsection \<open>ResizeHandler and the input element\<close>

text \<open>
  The worker and the canvas that a handler refers to are kept by the page. An
  \<^verbatim>\<open>InputHandler\<close> is the state of its input element: the two style properties the source
  sets, whether it has the focus, and which of its three listeners are registered.
\<close>

record ResizeHandler =
  elemHeight :: number
  elemWidth :: number
  bounceTimerToken :: "nat option"

text \<open>\<open>Px n\<close> is the string \<^verbatim>\<open>n + 'px'\<close>.\<close>

datatype css_length = Px number

record InputHandler =
  fontFamily :: string
  fontSize :: "css_length option"
  hasFocus :: bool
  keydownListener :: bool
  blurListener :: bool
  focusListener :: bool

definition input_setFont :: "string \<Rightarrow> number \<Rightarrow> InputHandler \<Rightarrow> InputHandler" where
  "input_setFont name size' i = i\<lparr>fontFamily := name, fontSize := Some (Px size')\<rparr>"

definition focus :: "InputHandler \<Rightarrow> InputHandler" where
  "focus i = i\<lparr>hasFocus := True\<rparr>"

definition input_onVimInit :: "InputHandler \<Rightarrow> InputHandler" where
  "input_onVimInit i = i\<lparr>keydownListener := True, blurListener := True, focusListener := True\<rparr>"

definition input_onVimExit :: "InputHandler \<Rightarrow> InputHandler" where
  "input_onVimExit i = i\<lparr>keydownListener := False, blurListener := False, focusListener := False\<rparr>"

subsection \<open>ScreenCanvas\<close>

text \<open>
  The three colours and the font name are not set by the constructor: \<open>None\<close> is
  \<^verbatim>\<open>undefined\<close>. Assigning \<^verbatim>\<open>undefined\<close> to a style of the context leaves the style as it
  was, and \<^verbatim>\<open>'px ' + undefined\<close> is \<^verbatim>\<open>'px undefined'\<close>. A method that calls the canvas
  returns the error the canvas raised, if any, and the screen as the method left it.
\<close>

record ScreenCanvas =
  ctx :: CanvasRenderingContext2D
  resizer :: ResizeHandler
  input :: InputHandler
  fgColor :: "string option"
  bgColor :: "string option"
  spColor :: "string option"
  fontName :: "string option"
  queue :: "DrawEventMessage list"
  rafScheduled :: bool

definition setColorFG :: "string \<Rightarrow> ScreenCanvas \<Rightarrow> ScreenCanvas" where
  "setColorFG name sc = sc\<lparr>fgColor := Some name\<rparr>"

definition setColorBG :: "string \<Rightarrow> ScreenCanvas \<Rightarrow> ScreenCanvas" where
  "setColorBG name sc = sc\<lparr>bgColor := Some name\<rparr>"

definition setColorSP :: "string \<Rightarrow> ScreenCanvas \<Rightarrow> ScreenCanvas" where
  "setColorSP name sc = sc\<lparr>spColor := Some name\<rparr>"

definition setFont :: "string \<Rightarrow> number \<Rightarrow> ScreenCanvas \<Rightarrow> ScreenCanvas" where
  "setFont name size' sc = sc\<lparr>fontName := Some name, input := input_setFont name size' (input sc)\<rparr>"

definition drawRect ::
  "Window \<Rightarrow> number \<Rightarrow> number \<Rightarrow> number \<Rightarrow> number \<Rightarrow> string \<Rightarrow> bool \<Rightarrow> ScreenCanvas \<Rightarrow> ScreenCanvas" where
  "drawRect win x y w h color filled sc =
    (let dpr = dpr_of win;
         x1 = \<lfloor>fmul x dpr\<rfloor>;
         y1 = \<lfloor>fmul y dpr\<rfloor>;
         w1 = \<lfloor>fmul w dpr\<rfloor>;
         h1 = \<lfloor>fmul h dpr\<rfloor>;
         c = (ctx sc)\<lparr>fillStyle := color\<rparr>
     in if filled then sc\<lparr>ctx := fillRect x1 y1 w1 h1 c\<rparr>
        else sc\<lparr>ctx := rect x1 y1 w1 h1 c\<rparr>)"

definition set_style :: "string option \<Rightarrow> string \<Rightarrow> string" where
  "set_style v old = (case v of None \<Rightarrow> old | Some s \<Rightarrow> s)"

text \<open>The loop \<^verbatim>\<open>for (let i = 0; i < text.length; ++i) fillText(text[i], floor(x + cw * i), yi)\<close>.\<close>

function drawText_glyphs ::
  "nat \<Rightarrow> 16 word list \<Rightarrow> number \<Rightarrow> number \<Rightarrow> int \<Rightarrow> CanvasRenderingContext2D \<Rightarrow> CanvasRenderingContext2D" where
  "drawText_glyphs i text x cw yi c =
     (if i < length text
      then drawText_glyphs (i + 1) text x cw yi
             (fillText [text ! i] \<lfloor>fadd x (fmul cw (real i))\<rfloor> yi c)
      else c)"
  by pat_completeness auto
termination
  by (relation "measure (\<lambda>(i, text, x, cw, yi, c). length text - i)") auto

declare drawText_glyphs.simps [simp del]

definition drawText ::
  "Window \<Rightarrow> 16 word list \<Rightarrow> number \<Rightarrow> number \<Rightarrow> number \<Rightarrow> number \<Rightarrow> number \<Rightarrow>
   bool \<Rightarrow> bool \<Rightarrow> bool \<Rightarrow> bool \<Rightarrow> ScreenCanvas \<Rightarrow> ScreenCanvas" where
  "drawText win text ch0 lh0 cw0 x0 y0 bold underline undercurl strike sc =
    (let dpr = dpr_of win;
         ch = fmul ch0 dpr;
         lh = fmul lh0 dpr;
         cw = fmul cw0 dpr;
         x = fmul x0 dpr;
         y = fmul y0 dpr;
         font0 = [Num \<lfloor>ch\<rfloor>, Lit ''px '',
                  (case fontName sc of None \<Rightarrow> Lit ''undefined'' | Some n \<Rightarrow> Lit n)];
         font1 = (if bold then Lit ''bold '' # font0 else font0);
         c1 = (ctx sc)\<lparr>font := font1, textBaseline := ''ideographic'',
                        fillStyle := set_style (fgColor sc) (fillStyle (ctx sc))\<rparr>;
         yi = \<lfloor>fadd y lh\<rfloor>;
         c2 = drawText_glyphs 0 text x cw yi c1
     in if underline then
          (let c3 = setLineDash []
                      (set_lineWidth (fmul 1 dpr)
                         (c2\<lparr>strokeStyle := set_style (fgColor sc) (strokeStyle c2)\<rparr>));
               underlineY = \<lfloor>fsub (fadd y lh) (fmul 3 dpr)\<rfloor>
           in sc\<lparr>ctx := stroke (lineTo \<lfloor>fadd x (fmul cw (real (length text)))\<rfloor> underlineY
                              (moveTo \<lfloor>x\<rfloor> underlineY (beginPath c3)))\<rparr>)
        else if undercurl then
          (let c3 = set_lineWidth (fmul 1 dpr)
                      (c2\<lparr>strokeStyle := set_style (spColor sc) (strokeStyle c2)\<rparr>);
               curlWidth = \<lfloor>fdiv cw 3\<rfloor>;
               c4 = setLineDash [curlWidth, curlWidth] c3;
               undercurlY = \<lfloor>fsub (fadd y lh) (fmul 3 dpr)\<rfloor>
           in sc\<lparr>ctx := stroke (lineTo \<lfloor>fadd x (fmul cw (real (length text)))\<rfloor> undercurlY
                              (moveTo \<lfloor>x\<rfloor> undercurlY (beginPath c4)))\<rparr>)
        else if strike then
          (let c3 = set_lineWidth (fmul 1 dpr)
                      (c2\<lparr>strokeStyle := set_style (fgColor sc) (strokeStyle c2)\<rparr>);
               strikeY = \<lfloor>fadd y (fdiv lh 2)\<rfloor>
           in sc\<lparr>ctx := stroke (lineTo \<lfloor>fadd x (fmul cw (real (length text)))\<rfloor> strikeY
                              (moveTo \<lfloor>x\<rfloor> strikeY (beginPath c3)))\<rparr>)
        else sc\<lparr>ctx := c2\<rparr>)"

text \<open>
  The loop of \<^verbatim>\<open>invertRect\<close> over the bytes of the image: three complements, then a step
  over the alpha byte. A write past the end of a typed array is dropped, as a list update
  past the end is.
\<close>

function invert_loop :: "nat \<Rightarrow> 8 word list \<Rightarrow> 8 word list" where
  "invert_loop i d =
     (if i < length d then
        (let d1 = d[i := 255 - d ! i];
             i1 = i + 1;
             d2 = d1[i1 := 255 - d1 ! i1];
             i2 = i1 + 1;
             d3 = d2[i2 := 255 - d2 ! i2];
             i3 = i2 + 1
         in invert_loop (i3 + 1) d3)
      else d)"
  by pat_completeness auto
termination
  by (relation "measure (\<lambda>(i, d). length d - i)") auto

declare invert_loop.simps [simp del]

text \<open>When \<^verbatim>\<open>getImageData\<close> raises, nothing after it runs.\<close>

definition invertRect ::
  "Window \<Rightarrow> number \<Rightarrow> number \<Rightarrow> number \<Rightarrow> number \<Rightarrow> ScreenCanvas \<Rightarrow> js_error option \<times> ScreenCanvas" where
  "invertRect win x y w h sc =
    (let dpr = dpr_of win;
         x1 = \<lfloor>fmul x dpr\<rfloor>;
         y1 = \<lfloor>fmul y dpr\<rfloor>;
         w1 = \<lfloor>fmul w dpr\<rfloor>;
         h1 = \<lfloor>fmul h dpr\<rfloor>
     in case getImageData x1 y1 w1 h1 (ctx sc) of
          Inl e \<Rightarrow> (Some e, sc)
        | Inr img \<Rightarrow>
            (None, sc\<lparr>ctx := putImageData (img\<lparr>data := invert_loop 0 (data img)\<rparr>) x1 y1 (ctx sc)\<rparr>))"

definition imageScroll ::
  "Window \<Rightarrow> number \<Rightarrow> number \<Rightarrow> number \<Rightarrow> number \<Rightarrow> number \<Rightarrow> ScreenCanvas \<Rightarrow>
   js_error option \<times> ScreenCanvas" where
  "imageScroll win x sy dy w h sc =
    (let dpr = dpr_of win;
         x1 = \<lfloor>fmul x dpr\<rfloor>;
         sy1 = \<lfloor>fmul sy dpr\<rfloor>;
         dy1 = \<lfloor>fmul dy dpr\<rfloor>;
         w1 = \<lfloor>fmul w dpr\<rfloor>;
         h1 = \<lfloor>fmul h dpr\<rfloor>
     in case drawImage x1 sy1 w1 h1 x1 dy1 w1 h1 (ctx sc) of
          Inl e \<Rightarrow> (Some e, sc)
        | Inr c \<Rightarrow> (None, sc\<lparr>ctx := c\<rparr>))"

text \<open>\<^verbatim>\<open>this[method].apply(this, args)\<close>.\<close>

fun apply_method :: "Window \<Rightarrow> DrawEventMessage \<Rightarrow> ScreenCanvas \<Rightarrow> js_error option \<times> ScreenCanvas" where
  "apply_method win (SetColorFG name) sc = (None, setColorFG name sc)"
| "apply_method win (SetColorBG name) sc = (None, setColorBG name sc)"
| "apply_method win (SetColorSP name) sc = (None, setColorSP name sc)"
| "apply_method win (SetFont name size') sc = (None, setFont name size' sc)"
| "apply_method win (DrawRect x y w h color filled) sc = (None, drawRect win x y w h color filled sc)"
| "apply_method win (DrawText text ch lh cw x y bold underline undercurl strike) sc =
     (None, drawText win text ch lh cw x y bold underline undercurl strike sc)"
| "apply_method win (InvertRect x y w h) sc = invertRect win x y w h sc"
| "apply_method win (ImageScroll x sy dy w h) sc = imageScroll win x sy dy w h sc"

text \<open>
  The loop \<^verbatim>\<open>for (const [method, args] of this.queue) this[method].apply(this, args)\<close>: an
  instruction that raises ends it, and the instructions after it are not applied.
\<close>

fun queue_loop ::
  "Window \<Rightarrow> DrawEventMessage list \<Rightarrow> ScreenCanvas \<Rightarrow> js_error option \<times> ScreenCanvas" where
  "queue_loop win [] sc = (None, sc)"
| "queue_loop win (m # ms) sc =
     (case apply_method win m sc of
        (None, sc1) \<Rightarrow> queue_loop win ms sc1
      | (Some e, sc1) \<Rightarrow> (Some e, sc1))"

subsection \<open>The page: VimWasm and the handlers that need the window\<close>

text \<open>
  Every handler holds a reference to the one \<^verbatim>\<open>VimWorker\<close>; the model keeps the worker
  once, beside the screen and the window.
\<close>

record VimWasm =
  worker :: VimWorker
  screen :: ScreenCanvas
  window :: Window

definition enqueue :: "DrawEventMessage \<Rightarrow> VimWasm \<Rightarrow> VimWasm" where
  "enqueue msg s =
    (let s1 = (if \<not> rafScheduled (screen s)
               then s\<lparr>window := (window s)\<lparr>rafRequests := Suc (rafRequests (window s))\<rparr>,
                      screen := (screen s)\<lparr>rafScheduled := True\<rparr>\<rparr>
               else s)
     in s1\<lparr>screen := (screen s1)\<lparr>queue := queue (screen s1) @ [msg]\<rparr>\<rparr>)"

text \<open>
  \<^verbatim>\<open>onAnimationFrame\<close> has no \<^verbatim>\<open>try\<close>: when an instruction raises, the two assignments
  after the loop do not run, and the queue and the flag stay as they were.
\<close>

definition onAnimationFrame :: "VimWasm \<Rightarrow> js_error option \<times> VimWasm" where
  "onAnimationFrame s =
    (case queue_loop (window s) (queue (screen s)) (screen s) of
       (None, sc1) \<Rightarrow> (None, s\<lparr>screen := sc1\<lparr>queue := [], rafScheduled := False\<rparr>\<rparr>)
     | (Some e, sc1) \<Rightarrow> (Some e, s\<lparr>screen := sc1\<rparr>))"

definition doResize :: "VimWasm \<Rightarrow> VimWasm" where
  "doResize s =
    (let r = canvasRect (window s)
     in s\<lparr>screen := (screen s)\<lparr>resizer :=
              (resizer (screen s))\<lparr>elemWidth := width r, elemHeight := height r\<rparr>\<rparr>,
          worker := sendMessage (ResizeMsg (height r) (width r)) (worker s)\<rparr>)"

text \<open>The callback given to \<^verbatim>\<open>setTimeout\<close> by \<^verbatim>\<open>onResize\<close>.\<close>

definition bounce_callback :: "VimWasm \<Rightarrow> VimWasm" where
  "bounce_callback s =
     doResize (s\<lparr>screen := (screen s)\<lparr>resizer :=
                   (resizer (screen s))\<lparr>bounceTimerToken := None\<rparr>\<rparr>\<rparr>)"

definition onResize :: "VimWasm \<Rightarrow> VimWasm" where
  "onResize s =
    (let win0 = (case bounceTimerToken (resizer (screen s)) of
                   None \<Rightarrow> window s
                 | Some tok \<Rightarrow> clearTimeout tok (window s));
         (tok1, win1) = setTimeout 1000 win0
     in s\<lparr>window := win1,
          screen := (screen s)\<lparr>resizer :=
              (resizer (screen s))\<lparr>bounceTimerToken := Some tok1\<rparr>\<rparr>\<rparr>)"

definition onVimInit :: "VimWasm \<Rightarrow> VimWasm" where
  "onVimInit s =
     s\<lparr>window := (window s)\<lparr>resizeListener := True\<rparr>,
       screen := (screen s)\<lparr>input := input_onVimInit (input (screen s))\<rparr>\<rparr>"

definition onVimExit :: "VimWasm \<Rightarrow> VimWasm" where
  "onVimExit s =
     s\<lparr>window := (window s)\<lparr>resizeListener := False\<rparr>,
       screen := (screen s)\<lparr>input := input_onVimExit (input (screen s))\<rparr>\<rparr>"

text \<open>
  \<^verbatim>\<open>fatal\<close> shows the message and throws; the result of a handler is the error it threw, if
  any, and the state it left.
\<close>

definition fatal :: "string \<Rightarrow> VimWasm \<Rightarrow> js_error option \<times> VimWasm" where
  "fatal msg s = (Some (Error msg), s\<lparr>window := (window s)\<lparr>alerts := alerts (window s) @ [msg]\<rparr>\<rparr>)"

fun onMessage :: "MessageFromWorker \<Rightarrow> VimWasm \<Rightarrow> js_error option \<times> VimWasm" where
  "onMessage (Draw event) s = (None, enqueue event s)"
| "onMessage Started s = (None, onVimInit s)"
| "onMessage Exit s = (None, onVimExit s)"
| "onMessage (Fatal message) s = fatal message s"
| "onMessage (Other k) s =
     (Some (Error ''FATAL: Unexpected message from worker: [object Object]''), s)"

text \<open>
  The constructors, for a canvas whose rectangle is \<open>r\<close> on a display of ratio \<open>dpr0\<close> in a
  browser that paints as \<open>rast\<close>: \<^verbatim>\<open>new VimWasm('worker.js')\<close>, and \<^verbatim>\<open>start\<close> with the value
  of \<^verbatim>\<open>DEBUGGING\<close>, a constant declared outside \<^verbatim>\<open>main.ts\<close>. The canvas is opaque black at
  first (\<^verbatim>\<open>alpha: false\<close>).
\<close>

definition new_Window ::
  "DOMRect \<Rightarrow> number \<Rightarrow> (paint \<Rightarrow> (int \<Rightarrow> int \<Rightarrow> pixel) \<Rightarrow> int \<Rightarrow> int \<Rightarrow> pixel) \<Rightarrow> Window" where
  "new_Window r dpr0 rast =
     \<lparr>devicePixelRatio = dpr0, canvasRect = r, resizeListener = False, timers = [],
      nextTimer = 1, now = 0, rafRequests = 0, alerts = [], uncaught = [], rasteriser = rast\<rparr>"

definition new_ScreenCanvas :: "Window \<Rightarrow> ScreenCanvas" where
  "new_ScreenCanvas win =
    (let r = canvasRect win; dpr = dpr_of win
     in \<lparr>ctx = \<lparr>canvas_width = nat \<lfloor>fmul (width r) dpr\<rfloor>,
                canvas_height = nat \<lfloor>fmul (height r) dpr\<rfloor>,
                bitmap = (\<lambda>x y. (0, 0, 0, 255)), rasterise = rasteriser win,
                fillStyle = ''#000000'', strokeStyle = ''#000000'',
                font = [Lit ''10px sans-serif''], textBaseline = ''alphabetic'',
                lineWidth = 1, lineDash = [], path = [], painted = []\<rparr>,
         resizer = \<lparr>elemHeight = height r, elemWidth = width r, bounceTimerToken = None\<rparr>,
         input = focus \<lparr>fontFamily = [], fontSize = None, hasFocus = False,
                   keydownListener = False, blurListener = False, focusListener = False\<rparr>,
         fgColor = None, bgColor = None, spColor = None, fontName = None,
         queue = [], rafScheduled = False\<rparr>)"

definition new_VimWasm ::
  "DOMRect \<Rightarrow> number \<Rightarrow> (paint \<Rightarrow> (int \<Rightarrow> int \<Rightarrow> pixel) \<Rightarrow> int \<Rightarrow> int \<Rightarrow> pixel) \<Rightarrow> VimWasm" where
  "new_VimWasm r dpr0 rast =
     \<lparr>worker = new_VimWorker, screen = new_ScreenCanvas (new_Window r dpr0 rast),
      window = new_Window r dpr0 rast\<rparr>"

definition start :: "bool \<Rightarrow> VimWasm \<Rightarrow> VimWasm" where
  "start debugging s =
     s\<lparr>worker := sendMessage
         (StartMsg (elemHeight (resizer (screen s))) (elemWidth (resizer (screen s))) debugging)
         (worker s)\<rparr>"

subsection \<open>The event loop\<close>

text \<open>
  What the browser delivers to the page, one event at a time: a message of the worker, a
  keydown on the input element, a \<^verbatim>\<open>resize\<close> of the window, a refresh tick, the passing
  of \<open>d\<close> milliseconds, and a change of the canvas's rectangle. A listener runs only
  while it is registered; an error thrown by a handler or a callback is uncaught, and the
  page goes on. Clicks, focus and blur are left out: their handlers move the focus or only
  log.
\<close>

datatype page_event =
    WorkerMessage MessageFromWorker
  | Keydown KeyboardEvent
  | WindowResize
  | AnimationFrame
  | Elapse nat
  | LayoutChange DOMRect

text \<open>
  A refresh tick forgets the registrations and runs every callback that was registered
  once; what a callback throws is uncaught.
\<close>

definition raf_callback :: "VimWasm \<Rightarrow> VimWasm" where
  "raf_callback s =
     (case onAnimationFrame s of
        (None, s1) \<Rightarrow> s1
      | (Some e, s1) \<Rightarrow> s1\<lparr>window := (window s1)\<lparr>uncaught := uncaught (window s1) @ [e]\<rparr>\<rparr>)"

definition animationFrame :: "VimWasm \<Rightarrow> VimWasm" where
  "animationFrame s =
     (raf_callback ^^ rafRequests (window s)) (s\<lparr>window := (window s)\<lparr>rafRequests := 0\<rparr>\<rparr>)"

text \<open>A timer that is due fires once, at its time, if it is still pending.\<close>

definition fire :: "nat \<times> nat \<Rightarrow> VimWasm \<Rightarrow> VimWasm" where
  "fire kt s =
    (if kt \<in> set (timers (window s))
     then bounce_callback
            (s\<lparr>window := (window s)\<lparr>now := max (now (window s)) (snd kt),
                                     timers := removeAll kt (timers (window s))\<rparr>\<rparr>)
     else s)"

definition elapse :: "nat \<Rightarrow> VimWasm \<Rightarrow> VimWasm" where
  "elapse d s =
    (let t1 = now (window s) + d;
         due = sort_key snd (filter (\<lambda>(k, t). t \<le> t1) (timers (window s)));
         s1 = fold fire due s
     in s1\<lparr>window := (window s1)\<lparr>now := t1\<rparr>\<rparr>)"

fun step :: "page_event \<Rightarrow> VimWasm \<Rightarrow> VimWasm" where
  "step (WorkerMessage m) s =
     (case onMessage m s of
        (None, s1) \<Rightarrow> s1
      | (Some e, s1) \<Rightarrow> s1\<lparr>window := (window s1)\<lparr>uncaught := uncaught (window s1) @ [e]\<rparr>\<rparr>)"
| "step (Keydown e) s =
     (if keydownListener (input (screen s)) then s\<lparr>worker := snd (onKeydown e (worker s))\<rparr> else s)"
| "step WindowResize s = (if resizeListener (window s) then onResize s else s)"
| "step AnimationFrame s = animationFrame s"
| "step (Elapse d) s = elapse d s"
| "step (LayoutChange r) s = s\<lparr>window := (window s)\<lparr>canvasRect := r\<rparr>\<rparr>"

definition run :: "page_event list \<Rightarrow> VimWasm \<Rightarrow> VimWasm" where
  "run evs s = fold step evs s"

subsection \<open>Vocabulary of the theorems\<close>

text \<open>
  The coordinates a painting call was made with, the paints one call added, and the device
  pixel of a logical value: \<^verbatim>\<open>Math.floor(value * dpr)\<close>, the product a double.
\<close>

fun path_coords :: "path_cmd \<Rightarrow> int list" where
  "path_coords (PathRect x y w h) = [x, y, w, h]"
| "path_coords (MoveTo x y) = [x, y]"
| "path_coords (LineTo x y) = [x, y]"

fun paint_coords :: "paint \<Rightarrow> int list" where
  "paint_coords (FillRect x y w h s) = [x, y, w, h]"
| "paint_coords (FillText t x y f s b) = [x, y]"
| "paint_coords (Stroke p s lw ld) = concat (map path_coords p)"
| "paint_coords (PutImageData x y w h) = [x, y, int w, int h]"
| "paint_coords (DrawImage sx sy sw sh dx dy dw dh) = [sx, sy, sw, sh, dx, dy, dw, dh]"

definition device_px :: "Window \<Rightarrow> number \<Rightarrow> int" where
  "device_px win v = \<lfloor>fmul v (dpr_of win)\<rfloor>"

definition new_paints :: "ScreenCanvas \<Rightarrow> ScreenCanvas \<Rightarrow> paint list" where
  "new_paints sc sc1 = drop (length (painted (ctx sc))) (painted (ctx sc1))"




text \<open>
  The concrete runs need a browser. Where one of them reads pixels back, they are pixels
  that no fill, glyph or stroke has touched, so that how these are painted does not show in
  it; their browser leaves the bitmap as it is.
\<close>

definition blank_rasteriser :: "paint \<Rightarrow> (int \<Rightarrow> int \<Rightarrow> pixel) \<Rightarrow> int \<Rightarrow> int \<Rightarrow> pixel" where
  "blank_rasteriser p b = b"

text \<open>
  A window on a display of ratio 1.5, and one of ratio 0.9 (the double nearest to it), for
  the concrete runs.
\<close>

definition hidpi_window :: Window where
  "hidpi_window = new_Window \<lparr>height = 480, width = 640\<rparr> (3 / 2) blank_rasteriser"

definition lodpi_window :: Window where
  "lodpi_window = new_Window \<lparr>height = 480, width = 640\<rparr> (fl (9 / 10)) blank_rasteriser"

text \<open>
  The page once the worker has started: constructed for a canvas of 640 by 480 on a display
  of ratio 1, \<^verbatim>\<open>start\<close> called, and \<^verbatim>\<open>started\<close> received.
\<close>

definition live_page :: VimWasm where
  "live_page = run [WorkerMessage Started]
     (start False (new_VimWasm \<lparr>height = 480, width = 640\<rparr> 1 blank_rasteriser))"

text \<open>
  The debouncer's token and the browser's timers agree: no token and no timer, or one token
  and its timer alone.
\<close>

definition timer_inv :: "VimWasm \<Rightarrow> bool" where
  "timer_inv s =
     (case bounceTimerToken (resizer (screen s)) of
        None \<Rightarrow> timers (window s) = []
      | Some k \<Rightarrow> map fst (timers (window s)) = [k])"

text \<open>
  A burst of resize notifications: for each \<open>(r, g)\<close> the canvas takes the rectangle \<open>r\<close>,
  the notification arrives, and \<open>g\<close> milliseconds pass before the next one.
\<close>

fun burst :: "(DOMRect \<times> nat) list \<Rightarrow> page_event list" where
  "burst [] = []"
| "burst ((r, g) # ns) = LayoutChange r # WindowResize # Elapse g # burst ns"

text \<open>The events of the resize pipeline.\<close>

fun resize_event :: "page_event \<Rightarrow> bool" where
  "resize_event WindowResize = True"
| "resize_event (Elapse d) = True"
| "resize_event (LayoutChange r) = True"
| "resize_event e = False"

text \<open>
  The draw instructions among the events of a run, in order. The render queue is idle when
  no flush is scheduled, no callback registered and the queue empty, as the constructor
  leaves it. \<open>raf_inv\<close> is the state of a render queue none of whose flushes has raised: one
  callback registered exactly while a flush is marked as scheduled, and an empty queue while
  none is. \<open>raf_bound\<close> is what is left of it once a flush has raised.
\<close>

fun draws :: "page_event list \<Rightarrow> DrawEventMessage list" where
  "draws [] = []"
| "draws (WorkerMessage (Draw m) # es) = m # draws es"
| "draws (e # es) = draws es"

definition flush_idle :: "VimWasm \<Rightarrow> bool" where
  "flush_idle s \<longleftrightarrow>
     rafRequests (window s) = 0 \<and> queue (screen s) = [] \<and> rafScheduled (screen s) = False"


definition raf_bound :: "VimWasm \<Rightarrow> bool" where
  "raf_bound s \<longleftrightarrow> rafRequests (window s) \<le> (if rafScheduled (screen s) then 1 else 0)"



text \<open>The page with the record of alerts and of uncaught errors replaced.\<close>

definition relog :: "string list \<Rightarrow> js_error list \<Rightarrow> VimWasm \<Rightarrow> VimWasm" where
  "relog a u s = s\<lparr>window := (window s)\<lparr>alerts := a, uncaught := u\<rparr>\<rparr>"

text \<open>A stroke whose path holds a rectangle, and the page as the last line of the source leaves it.\<close>

fun is_rect :: "path_cmd \<Rightarrow> bool" where
  "is_rect (PathRect x y w h) = True"
| "is_rect c = False"

fun rect_stroked :: "paint \<Rightarrow> bool" where
  "rect_stroked (Stroke p s lw ld) = list_ex is_rect p"
| "rect_stroked q = False"

definition new_page ::
  "DOMRect \<Rightarrow> number \<Rightarrow> (paint \<Rightarrow> (int \<Rightarrow> int \<Rightarrow> pixel) \<Rightarrow> int \<Rightarrow> int \<Rightarrow> pixel) \<Rightarrow> bool \<Rightarrow> VimWasm" where
  "new_page r dpr0 rast debugging = start debugging (new_VimWasm r dpr0 rast)"

section \<open>Theorems\<close>

subsection \<open>Evaluation of double arithmetic\<close>

text \<open>
  The exponent of a positive number is found by halving or doubling it into the interval
  from 1 to 2; with these rules a rounding of a numeral is computed by rewriting.
\<close>

lemma floor_log2_unit: "1 \<le> x \<Longrightarrow> x < 2 \<Longrightarrow> \<lfloor>log 2 x\<rfloor> = 0"
proof -
  assume a: "1 \<le> x" "x < 2"
  then have "0 \<le> log 2 x" and "log 2 x < 1"
    by (simp_all add: zero_le_log_cancel_iff log_less_iff)
  then show ?thesis by linarith
qed

lemma floor_log2_halve: "2 \<le> x \<Longrightarrow> \<lfloor>log 2 x\<rfloor> = \<lfloor>log 2 (x / 2)\<rfloor> + 1"
proof -
  assume a: "2 \<le> x"
  then have "log 2 (x / 2) = log 2 x - 1"
    by (simp add: log_divide)
  then show ?thesis by simp
qed

lemma floor_log2_double: "0 < x \<Longrightarrow> x < 1 \<Longrightarrow> \<lfloor>log 2 x\<rfloor> = \<lfloor>log 2 (x * 2)\<rfloor> - 1"
proof -
  assume a: "0 < x" "x < 1"
  then have "log 2 (x * 2) = log 2 x + 1"
    by (simp add: log_mult)
  then show ?thesis by simp
qed

lemmas fl_eval = fl_def fmul_def fadd_def fsub_def fdiv_def binade_def rne_def pow2_def Let_def
  floor_log2_unit floor_log2_halve floor_log2_double

lemma fl_samples:
  "fl 1 = 1" "fl (3 / 2) = 3 / 2" "fmul 640 1 = 640" "fmul 480 (3 / 2) = 720"
  "fl (9 / 10) = 8106479329266893 / 9007199254740992"
  "\<lfloor>fmul 5 (fl (12 / 10))\<rfloor> = 6"
  by (simp_all add: fl_eval)

lemma posted_append: "posted (xs @ ys) = posted xs @ posted ys"
  by (induction xs rule: posted.induct) simp_all

lemma wakes_append: "wakes (xs @ ys) = wakes xs + wakes ys"
  by (induction xs rule: wakes.induct) simp_all

subsection \<open>The wake cell\<close>

text \<open>
  C7. The wake cell is one 32-bit cell that starts at 0. Every \<^verbatim>\<open>awakeWorkerThread\<close> stores 1
  into it, so after any positive number of calls it holds 1; a second call leaves the cell as
  the first one left it, and no call posts a message.
\<close>

theorem wake_cell_level:
  "sharedBuffer new_VimWorker = 0
   \<and> calls (awakeWorkerThread w) = calls w @ [AtomicsStore 0 1]
   \<and> sharedBuffer (awakeWorkerThread w) = 1
   \<and> sharedBuffer ((awakeWorkerThread ^^ Suc n) w) = 1
   \<and> sharedBuffer (awakeWorkerThread (awakeWorkerThread w)) = sharedBuffer (awakeWorkerThread w)
   \<and> posted (calls ((awakeWorkerThread ^^ n) w)) = posted (calls w)"
proof -
  have p: "posted (calls ((awakeWorkerThread ^^ k) w)) = posted (calls w)" for k
    by (induction k) (simp_all add: awakeWorkerThread_def posted_append)
  show ?thesis
    using p [of n] by (simp add: new_VimWorker_def awakeWorkerThread_def)
qed

theorem wake_cell_level_witness:
  "sharedBuffer ((awakeWorkerThread ^^ Suc 2) new_VimWorker) = 1
   \<and> posted (calls ((awakeWorkerThread ^^ 2) new_VimWorker)) = []"
  using wake_cell_level [of new_VimWorker 2] by (simp add: new_VimWorker_def)

subsection \<open>The input filter\<close>

text \<open>
  C3. A keydown whose key name is longer than one character and is \<^verbatim>\<open>Unidentified\<close>, or is
  the name of a modifier whose own flag is set, reaches the worker in no way: no store into
  the wake cell, no message. Every other keydown stores 1 into the wake cell and then posts
  exactly one \<^verbatim>\<open>key\<close> message with the event's code, keyCode, key and four modifier flags.
\<close>

theorem onKeydown_filter:
  "(if length (key e) > 1 \<and>
       (key e = ''Unidentified'' \<or> (ctrlKey e \<and> key e = ''Control'') \<or>
        (shiftKey e \<and> key e = ''Shift'') \<or> (altKey e \<and> key e = ''Alt'') \<or>
        (metaKey e \<and> key e = ''Meta''))
    then snd (onKeydown e w) = w
    else calls (snd (onKeydown e w)) =
           calls w @ [AtomicsStore 0 1,
             PostMessage (KeyMsg (code e) (keyCode e) (key e)
               (ctrlKey e) (shiftKey e) (altKey e) (metaKey e))]
         \<and> sharedBuffer (snd (onKeydown e w)) = 1)"
  by (simp add: onKeydown_def Let_def sendMessage_def awakeWorkerThread_def)

theorem onKeydown_filter_witness:
  "snd (onKeydown \<lparr>key = ''Control'', code = ''ControlLeft'', keyCode = 17, ctrlKey = True,
          shiftKey = False, altKey = False, metaKey = False,
          defaultPrevented = False, propagationStopped = False\<rparr> new_VimWorker) = new_VimWorker
   \<and> calls (snd (onKeydown \<lparr>key = ''a'', code = ''KeyA'', keyCode = 65, ctrlKey = True,
          shiftKey = False, altKey = False, metaKey = False,
          defaultPrevented = False, propagationStopped = False\<rparr> new_VimWorker)) =
       [AtomicsStore 0 1, PostMessage (KeyMsg ''KeyA'' 65 ''a'' True False False False)]"
  using onKeydown_filter [of "\<lparr>key = ''Control'', code = ''ControlLeft'', keyCode = 17,
          ctrlKey = True, shiftKey = False, altKey = False, metaKey = False,
          defaultPrevented = False, propagationStopped = False\<rparr>" new_VimWorker]
        onKeydown_filter [of "\<lparr>key = ''a'', code = ''KeyA'', keyCode = 65,
          ctrlKey = True, shiftKey = False, altKey = False, metaKey = False,
          defaultPrevented = False, propagationStopped = False\<rparr>" new_VimWorker]
  by (simp add: new_VimWorker_def)

subsection \<open>Drawing primitives\<close>

lemmas eval_defs = hidpi_window_def lodpi_window_def new_Window_def new_ScreenCanvas_def
  dpr_of_def fillText_def fillRect_def rect_def stroke_def lineTo_def moveTo_def beginPath_def
  set_lineWidth_def setLineDash_def paint_on_def blank_rasteriser_def set_style_def focus_def
  utf16_def drawText_glyphs.simps Let_def

lemma glyphs_painted:
  "painted (drawText_glyphs i str x cw yi c) =
     painted c @ map (\<lambda>k. FillText [str ! k] \<lfloor>fadd x (fmul cw (real k))\<rfloor> yi
                            (font c) (fillStyle c) (textBaseline c))
                   [i ..< length str]
   \<and> font (drawText_glyphs i str x cw yi c) = font c
   \<and> fillStyle (drawText_glyphs i str x cw yi c) = fillStyle c
   \<and> textBaseline (drawText_glyphs i str x cw yi c) = textBaseline c"
proof (induction i str x cw yi c rule: drawText_glyphs.induct)
  case (1 i str x cw yi c)
  show ?case
  proof (cases "i < length str")
    case True
    then show ?thesis
      using 1 by (subst (1 2 3 4) drawText_glyphs.simps)
        (simp add: fillText_def paint_on_def upt_conv_Cons)
  next
    case False
    then show ?thesis by (subst (1 2 3 4) drawText_glyphs.simps) simp
  qed
qed

lemma glyphs_frame:
  "strokeStyle (drawText_glyphs i str x cw yi c) = strokeStyle c
   \<and> lineWidth (drawText_glyphs i str x cw yi c) = lineWidth c
   \<and> lineDash (drawText_glyphs i str x cw yi c) = lineDash c
   \<and> path (drawText_glyphs i str x cw yi c) = path c
   \<and> canvas_width (drawText_glyphs i str x cw yi c) = canvas_width c
   \<and> canvas_height (drawText_glyphs i str x cw yi c) = canvas_height c
   \<and> rasterise (drawText_glyphs i str x cw yi c) = rasterise c"
proof (induction i str x cw yi c rule: drawText_glyphs.induct)
  case (1 i str x cw yi c)
  show ?case
  proof (cases "i < length str")
    case True
    then show ?thesis
      using 1 by (subst (1 2 3 4 5 6 7) drawText_glyphs.simps) (simp add: fillText_def paint_on_def)
  next
    case False
    then show ?thesis by (subst (1 2 3 4 5 6 7) drawText_glyphs.simps) simp
  qed
qed

lemmas glyphs_simps =
  glyphs_painted [THEN conjunct1]
  glyphs_painted [THEN conjunct2, THEN conjunct1]
  glyphs_painted [THEN conjunct2, THEN conjunct2, THEN conjunct1]
  glyphs_painted [THEN conjunct2, THEN conjunct2, THEN conjunct2]
  glyphs_frame [THEN conjunct1]
  glyphs_frame [THEN conjunct2, THEN conjunct1]
  glyphs_frame [THEN conjunct2, THEN conjunct2, THEN conjunct1]
  glyphs_frame [THEN conjunct2, THEN conjunct2, THEN conjunct2, THEN conjunct1]
  glyphs_frame [THEN conjunct2, THEN conjunct2, THEN conjunct2, THEN conjunct2, THEN conjunct1]
  glyphs_frame [THEN conjunct2, THEN conjunct2, THEN conjunct2, THEN conjunct2, THEN conjunct2,
    THEN conjunct1]
  glyphs_frame [THEN conjunct2, THEN conjunct2, THEN conjunct2, THEN conjunct2, THEN conjunct2,
    THEN conjunct2]

lemmas drawText_unfold = drawText_def Let_def glyphs_simps stroke_def lineTo_def moveTo_def
  beginPath_def set_lineWidth_def setLineDash_def paint_on_def

lemma drawText_coords:
  "map paint_coords (new_paints sc (drawText win str ch lh cw x y bold ul uc st sc)) =
     map (\<lambda>i. [\<lfloor>fadd (fmul x (dpr_of win)) (fmul (fmul cw (dpr_of win)) (real i))\<rfloor>,
               \<lfloor>fadd (fmul y (dpr_of win)) (fmul lh (dpr_of win))\<rfloor>])
       [0 ..< length str]
     @ (if ul \<or> uc then
          [[device_px win x,
            \<lfloor>fsub (fadd (fmul y (dpr_of win)) (fmul lh (dpr_of win))) (fmul 3 (dpr_of win))\<rfloor>,
            \<lfloor>fadd (fmul x (dpr_of win)) (fmul (fmul cw (dpr_of win)) (real (length str)))\<rfloor>,
            \<lfloor>fsub (fadd (fmul y (dpr_of win)) (fmul lh (dpr_of win))) (fmul 3 (dpr_of win))\<rfloor>]]
        else if st then
          [[device_px win x,
            \<lfloor>fadd (fmul y (dpr_of win)) (fdiv (fmul lh (dpr_of win)) 2)\<rfloor>,
            \<lfloor>fadd (fmul x (dpr_of win)) (fmul (fmul cw (dpr_of win)) (real (length str)))\<rfloor>,
            \<lfloor>fadd (fmul y (dpr_of win)) (fdiv (fmul lh (dpr_of win)) 2)\<rfloor>]]
        else [])"
  by (simp add: drawText_unfold new_paints_def device_px_def comp_def)

lemma drawText_font:
  "font (ctx (drawText win str ch lh cw x y bold ul uc st sc)) =
     (if bold then [Lit ''bold ''] else []) @
     [Num (device_px win ch), Lit ''px '',
      (case fontName sc of None \<Rightarrow> Lit ''undefined'' | Some n \<Rightarrow> Lit n)]"
  by (simp add: drawText_unfold device_px_def)

lemma drawText_lineWidth:
  "lineWidth (ctx (drawText win str ch lh cw x y bold ul uc st sc)) =
     (if (ul \<or> uc \<or> st) \<and> 0 < fmul 1 (dpr_of win) then fmul 1 (dpr_of win)
      else lineWidth (ctx sc))"
  by (simp add: drawText_unfold)

text \<open>
  C5, as amended. With \<open>dpr\<close> the device pixel ratio, or 1 when the ratio is 0, and every
  product, sum, difference and quotient a double operation: \<^verbatim>\<open>drawRect\<close> hands each of its
  four geometric arguments to the canvas as \<^verbatim>\<open>floor(argument * dpr)\<close>. \<^verbatim>\<open>drawText\<close> first
  scales \<open>ch\<close>, \<open>lh\<close>, \<open>cw\<close>, \<open>x\<close> and \<open>y\<close> by \<open>dpr\<close> and then floors sums of the scaled values:
  glyph \<open>i\<close> is filled at \<^verbatim>\<open>(floor(x*dpr + (cw*dpr)*i), floor(y*dpr + lh*dpr))\<close>; an underline
  or undercurl runs from \<^verbatim>\<open>floor(x*dpr)\<close> to \<^verbatim>\<open>floor(x*dpr + (cw*dpr)*n)\<close> at height
  \<^verbatim>\<open>floor(y*dpr + lh*dpr - 3*dpr)\<close>, a strike at height \<^verbatim>\<open>floor(y*dpr + (lh*dpr)/2)\<close>. The
  font size is \<^verbatim>\<open>floor(ch * dpr)\<close>, and the line width of a decoration is \<^verbatim>\<open>1 * dpr\<close>, not
  floored (the canvas keeps its line width when that is not positive).
\<close>

theorem device_pixel_geometry:
  "painted (ctx (drawRect win rx ry rw rh color True sc)) =
     painted (ctx sc) @ [FillRect (device_px win rx) (device_px win ry) (device_px win rw) (device_px win rh) color]
   \<and> path (ctx (drawRect win rx ry rw rh color False sc)) =
     path (ctx sc) @ [PathRect (device_px win rx) (device_px win ry) (device_px win rw) (device_px win rh)]
   \<and> map paint_coords (new_paints sc (drawText win str ch lh cw x y bold ul uc st sc)) =
       map (\<lambda>i. [\<lfloor>fadd (fmul x (dpr_of win)) (fmul (fmul cw (dpr_of win)) (real i))\<rfloor>,
                 \<lfloor>fadd (fmul y (dpr_of win)) (fmul lh (dpr_of win))\<rfloor>])
         [0 ..< length str]
       @ (if ul \<or> uc then
            [[device_px win x,
              \<lfloor>fsub (fadd (fmul y (dpr_of win)) (fmul lh (dpr_of win))) (fmul 3 (dpr_of win))\<rfloor>,
              \<lfloor>fadd (fmul x (dpr_of win)) (fmul (fmul cw (dpr_of win)) (real (length str)))\<rfloor>,
              \<lfloor>fsub (fadd (fmul y (dpr_of win)) (fmul lh (dpr_of win))) (fmul 3 (dpr_of win))\<rfloor>]]
          else if st then
            [[device_px win x,
              \<lfloor>fadd (fmul y (dpr_of win)) (fdiv (fmul lh (dpr_of win)) 2)\<rfloor>,
              \<lfloor>fadd (fmul x (dpr_of win)) (fmul (fmul cw (dpr_of win)) (real (length str)))\<rfloor>,
              \<lfloor>fadd (fmul y (dpr_of win)) (fdiv (fmul lh (dpr_of win)) 2)\<rfloor>]]
          else [])
   \<and> font (ctx (drawText win str ch lh cw x y bold ul uc st sc)) =
       (if bold then [Lit ''bold ''] else []) @
       [Num (device_px win ch), Lit ''px '',
        (case fontName sc of None \<Rightarrow> Lit ''undefined'' | Some n \<Rightarrow> Lit n)]
   \<and> lineWidth (ctx (drawText win str ch lh cw x y bold ul uc st sc)) =
       (if (ul \<or> uc \<or> st) \<and> 0 < fmul 1 (dpr_of win) then fmul 1 (dpr_of win)
        else lineWidth (ctx sc))"
proof -
  have r1: "painted (ctx (drawRect win rx ry rw rh color True sc)) =
     painted (ctx sc) @ [FillRect (device_px win rx) (device_px win ry) (device_px win rw) (device_px win rh) color]"
    and r2: "path (ctx (drawRect win rx ry rw rh color False sc)) =
     path (ctx sc) @ [PathRect (device_px win rx) (device_px win ry) (device_px win rw) (device_px win rh)]"
    by (simp_all add: drawRect_def Let_def fillRect_def paint_on_def rect_def device_px_def)
  show ?thesis
    by (intro conjI) (rule r1 r2 drawText_coords drawText_font drawText_lineWidth)+
qed

theorem device_pixel_geometry_witness:
  "map paint_coords (new_paints (new_ScreenCanvas hidpi_window)
      (drawText hidpi_window (utf16 ''ab'') 10 1 1 0 1 True True False False
         (new_ScreenCanvas hidpi_window)))
    = [[0, 3], [1, 3], [0, - 2, 3, - 2]]
   \<and> font (ctx (drawText hidpi_window (utf16 ''ab'') 10 1 1 0 1 True True False False
        (new_ScreenCanvas hidpi_window))) = [Lit ''bold '', Num 15, Lit ''px '', Lit ''undefined'']
   \<and> lineWidth (ctx (drawText hidpi_window (utf16 ''ab'') 10 1 1 0 1 True True False False
        (new_ScreenCanvas hidpi_window))) = 3 / 2"
  using device_pixel_geometry [where win = hidpi_window and sc = "new_ScreenCanvas hidpi_window"
      and str = "utf16 ''ab''" and ch = 10 and lh = 1 and cw = 1 and x = 0 and y = 1 and bold = True
      and ul = True and uc = False and st = False and rx = 0 and ry = 0 and rw = 0
      and rh = 0 and color = "[]"]
  by (simp add: eval_defs device_px_def; simp add: fl_eval)

text \<open>
  C5 as stated fails for a text run, because the scaled values are rounded before they are
  added. On a display of ratio 0.9, \<^verbatim>\<open>drawText('0123456789', 14, 16, 7, 7, 0, ...)\<close> fills its
  tenth glyph, whose logical position is \<open>x + cw * 9 = 70\<close>, at the device pixel 62, while
  \<^verbatim>\<open>floor(70 * 0.9)\<close> is 63.
\<close>

theorem glyph_position_counterexample:
  "map paint_coords (new_paints (new_ScreenCanvas lodpi_window)
      (drawText lodpi_window (utf16 ''0123456789'') 14 16 7 7 0 False False False False
         (new_ScreenCanvas lodpi_window))) ! 9 = [62, 14]
   \<and> device_px lodpi_window (fadd 7 (fmul 7 9)) = 63
   \<and> fadd 7 (fmul 7 9) = 70"
proof -
  have "map paint_coords (new_paints (new_ScreenCanvas lodpi_window)
      (drawText lodpi_window (utf16 ''0123456789'') 14 16 7 7 0 False False False False
         (new_ScreenCanvas lodpi_window))) ! 9 =
     [\<lfloor>fadd (fmul 7 (dpr_of lodpi_window)) (fmul (fmul 7 (dpr_of lodpi_window)) (real 9))\<rfloor>,
      \<lfloor>fadd (fmul 0 (dpr_of lodpi_window)) (fmul 16 (dpr_of lodpi_window))\<rfloor>]"
    by (simp add: drawText_coords utf16_def)
  also have "\<dots> = [62, 14]"
    by (simp add: lodpi_window_def new_Window_def dpr_of_def fl_eval)
  finally have a: "map paint_coords (new_paints (new_ScreenCanvas lodpi_window)
      (drawText lodpi_window (utf16 ''0123456789'') 14 16 7 7 0 False False False False
         (new_ScreenCanvas lodpi_window))) ! 9 = [62, 14]" .
  have b: "device_px lodpi_window (fadd 7 (fmul 7 9)) = 63"
    by (simp add: device_px_def lodpi_window_def new_Window_def dpr_of_def fl_eval)
  have c: "fadd 7 (fmul 7 9) = 70"
    by (simp add: fl_eval)
  show ?thesis
    using a b c by (intro conjI)
qed

text \<open>
  C9 at \<^verbatim>\<open>drawRect(0, 0, 10, 10, '#ff0000', false)\<close> on a display of ratio 1.5: nothing is
  painted; the rectangle is only added to the current path, and the next call that strokes
  (here the underline of a text run) begins a new path first, so the outline is never drawn.
  With \<^verbatim>\<open>filled\<close> true the rectangle is filled with the colour.
\<close>

theorem drawRect_outline_not_painted:
  "painted (ctx (drawRect hidpi_window 0 0 10 10 ''#ff0000'' False (new_ScreenCanvas hidpi_window))) = []
   \<and> path (ctx (drawRect hidpi_window 0 0 10 10 ''#ff0000'' False (new_ScreenCanvas hidpi_window)))
       = [PathRect 0 0 15 15]
   \<and> painted (ctx (drawText hidpi_window (utf16 ''a'') 10 1 1 0 1 False True False False
        (drawRect hidpi_window 0 0 10 10 ''#ff0000'' False (new_ScreenCanvas hidpi_window))))
       = [FillText (utf16 ''a'') 0 3 [Num 15, Lit ''px '', Lit ''undefined''] ''#ff0000'' ''ideographic'',
          Stroke [MoveTo 0 (- 2), LineTo 1 (- 2)] ''#000000'' (3 / 2) []]
   \<and> painted (ctx (drawRect hidpi_window 0 0 10 10 ''#ff0000'' True (new_ScreenCanvas hidpi_window)))
       = [FillRect 0 0 15 15 ''#ff0000'']"
  by (simp add: eval_defs drawRect_def drawText_def; simp add: fl_eval)

text \<open>
  C10. Executing the \<^verbatim>\<open>setFont\<close> instruction sets the font name of the screen and the font
  family and font size of the input element's style, and nothing else: the instruction does
  not raise, and the canvas context (drawing state, path, bitmap, paints) is as before.
\<close>

theorem setFont_effect:
  "fontName (snd (apply_method win (SetFont name sz) sc)) = Some name
   \<and> fontFamily (input (snd (apply_method win (SetFont name sz) sc))) = name
   \<and> fontSize (input (snd (apply_method win (SetFont name sz) sc))) = Some (Px sz)
   \<and> ctx (snd (apply_method win (SetFont name sz) sc)) = ctx sc
   \<and> apply_method win (SetFont name sz) sc =
       (None, sc\<lparr>fontName := Some name,
                 input := (input sc)\<lparr>fontFamily := name, fontSize := Some (Px sz)\<rparr>\<rparr>)"
  by (simp add: setFont_def input_setFont_def)

theorem setFont_effect_witness:
  "fontName (snd (apply_method hidpi_window (SetFont ''monospace'' 14) (new_ScreenCanvas hidpi_window)))
     = Some ''monospace''
   \<and> fontSize (input (snd (apply_method hidpi_window (SetFont ''monospace'' 14)
        (new_ScreenCanvas hidpi_window)))) = Some (Px 14)
   \<and> painted (ctx (snd (apply_method hidpi_window (SetFont ''monospace'' 14)
        (new_ScreenCanvas hidpi_window)))) = []"
  using setFont_effect [where win = hidpi_window and name = "''monospace''" and sz = 14
      and sc = "new_ScreenCanvas hidpi_window"]
  by (simp add: eval_defs; simp add: fl_eval)

subsection \<open>Region inversion\<close>

lemma invert_loop_length: "length (invert_loop i d) = length d"
proof (induction i d rule: invert_loop.induct)
  case (1 i d)
  show ?case
  proof (cases "i < length d")
    case True
    from 1 [OF True refl refl refl refl refl refl] True
    show ?thesis by (subst invert_loop.simps) (simp add: Let_def)
  next
    case False
    then show ?thesis by (subst invert_loop.simps) simp
  qed
qed














subsection \<open>The resize debouncer\<close>

lemma run_append: "run (xs @ ys) s = run ys (run xs s)"
  by (simp add: run_def)

lemma run_Cons: "run (e # es) s = run es (step e s)"
  by (simp add: run_def)

lemma run_Nil: "run [] s = s"
  by (simp add: run_def)

lemma notify:
  assumes "timer_inv s" "resizeListener (window s)"
  shows "timers (window (step WindowResize s)) = [(nextTimer (window s), now (window s) + 1000)]"
    and "bounceTimerToken (resizer (screen (step WindowResize s))) = Some (nextTimer (window s))"
    and "worker (step WindowResize s) = worker s"
    and "resizeListener (window (step WindowResize s))"
    and "now (window (step WindowResize s)) = now (window s)"
    and "canvasRect (window (step WindowResize s)) = canvasRect (window s)"
  using assms
  by (auto simp: timer_inv_def onResize_def setTimeout_def clearTimeout_def Let_def
      split: option.splits prod.splits)


lemma elapse_idle:
  assumes "timers (window s) = []"
  shows "step (Elapse d) s = s\<lparr>window := (window s)\<lparr>now := now (window s) + d\<rparr>\<rparr>"
  using assms by (simp add: elapse_def Let_def)

lemma elapse_pending:
  assumes "timers (window s) = [(k, due)]" "now (window s) + d < due"
  shows "step (Elapse d) s = s\<lparr>window := (window s)\<lparr>now := now (window s) + d\<rparr>\<rparr>"
  using assms by (simp add: elapse_def Let_def)

lemma elapse_fires:
  assumes "timers (window s) = [(k, due)]" "due \<le> now (window s) + d"
  shows "calls (worker (step (Elapse d) s)) =
           calls (worker s) @ [PostMessage (ResizeMsg (height (canvasRect (window s)))
                                                     (width (canvasRect (window s))))]"
    and "timers (window (step (Elapse d) s)) = []"
    and "bounceTimerToken (resizer (screen (step (Elapse d) s))) = None"
    and "resizeListener (window (step (Elapse d) s)) = resizeListener (window s)"
    and "now (window (step (Elapse d) s)) = now (window s) + d"
  using assms
  by (simp_all add: elapse_def Let_def fire_def bounce_callback_def doResize_def sendMessage_def)

lemma burst_round:
  assumes "timer_inv s" "resizeListener (window s)" "g < 1000"
  shows "timer_inv (run [LayoutChange r, WindowResize, Elapse g] s)"
    and "resizeListener (window (run [LayoutChange r, WindowResize, Elapse g] s))"
    and "calls (worker (run [LayoutChange r, WindowResize, Elapse g] s)) = calls (worker s)"
proof -
  let ?s1 = "step (LayoutChange r) s"
  let ?s2 = "step WindowResize ?s1"
  have i1: "timer_inv ?s1" "resizeListener (window ?s1)"
    using assms(1,2) by (simp_all add: timer_inv_def split: option.splits)
  note n = notify [OF i1]
  have p: "now (window ?s2) + g < now (window ?s1) + 1000"
    using assms(3) n(5) by simp
  have e: "step (Elapse g) ?s2 = ?s2\<lparr>window := (window ?s2)\<lparr>now := now (window ?s2) + g\<rparr>\<rparr>"
    by (rule elapse_pending [OF n(1) p])
  have r: "run [LayoutChange r, WindowResize, Elapse g] s = step (Elapse g) ?s2"
    by (simp add: run_def)
  show "timer_inv (run [LayoutChange r, WindowResize, Elapse g] s)"
    unfolding r e using n(1,2) by (simp add: timer_inv_def)
  show "resizeListener (window (run [LayoutChange r, WindowResize, Elapse g] s))"
    unfolding r e using n(4) by simp
  show "calls (worker (run [LayoutChange r, WindowResize, Elapse g] s)) = calls (worker s)"
    unfolding r e using n(3) by simp
qed

lemma burst_quiet:
  assumes "timer_inv s" "resizeListener (window s)" "\<forall>(r, g) \<in> set ns. g < 1000"
  shows "timer_inv (run (burst ns) s) \<and> resizeListener (window (run (burst ns) s))
         \<and> calls (worker (run (burst ns) s)) = calls (worker s)"
  using assms
proof (induction ns arbitrary: s)
  case Nil
  then show ?case by (simp add: run_def)
next
  case (Cons a ns)
  obtain r g where a: "a = (r, g)" by (cases a)
  from Cons.prems(3) a have g: "g < 1000" and rest: "\<forall>(r, g) \<in> set ns. g < 1000"
    by auto
  let ?t = "run [LayoutChange r, WindowResize, Elapse g] s"
  note b = burst_round [OF Cons.prems(1,2) g, of r]
  have split: "run (burst (a # ns)) s = run (burst ns) ?t"
    by (simp add: a run_def)
  show ?case
    unfolding split using Cons.IH [OF b(1,2) rest] b(3) by simp
qed


lemmas run_defs = live_page_def run_def start_def new_VimWasm_def new_Window_def
  new_ScreenCanvas_def new_VimWorker_def onVimInit_def onVimExit_def input_onVimInit_def
  input_onVimExit_def focus_def sendMessage_def onResize_def setTimeout_def clearTimeout_def
  elapse_def fire_def bounce_callback_def doResize_def dpr_of_def Let_def fatal_def onKeydown_def
  awakeWorkerThread_def enqueue_def animationFrame_def raf_callback_def onAnimationFrame_def

text \<open>
  C2, as amended. Take a page whose resize listener is registered, and a burst of resize
  notifications less than 1000 ms apart, the last one arriving when the canvas has the
  rectangle \<open>r_last\<close>. Every notification cancels the pending timer and arms a new one, so
  that after the last one exactly one timer is pending, due 1000 ms later, and nothing has
  been sent. If the canvas then has the rectangle \<open>r_fire\<close> and \<open>d\<close> ms pass, nothing is sent
  while \<open>d < 1000\<close>, and once \<open>1000 \<le> d\<close> exactly one \<^verbatim>\<open>resize\<close> message has been sent, with the
  height and width of \<open>r_fire\<close>: the rectangle the canvas has when the timer fires, which is
  that of the last notification only if the canvas has not changed since. After it the
  debouncer is idle and more time sends nothing.
\<close>

theorem resize_debounce:
  assumes "timer_inv s" and "resizeListener (window s)" and "\<forall>(r, g) \<in> set ns. g < 1000"
  shows "calls (worker (run (burst ns @ [LayoutChange r_last, WindowResize]) s)) = calls (worker s)
    \<and> map snd (timers (window (run (burst ns @ [LayoutChange r_last, WindowResize]) s))) =
        [now (window (run (burst ns @ [LayoutChange r_last, WindowResize]) s)) + 1000]
    \<and> map (Some \<circ> fst) (timers (window (run (burst ns @ [LayoutChange r_last, WindowResize]) s))) =
        [bounceTimerToken (resizer (screen (run (burst ns @ [LayoutChange r_last, WindowResize]) s)))]
    \<and> calls (worker (run (burst ns @ [LayoutChange r_last, WindowResize,
                                       LayoutChange r_fire, Elapse d]) s)) =
        calls (worker s) @
          (if 1000 \<le> d then [PostMessage (ResizeMsg (height r_fire) (width r_fire))] else [])
    \<and> (if 1000 \<le> d
       then timers (window (run (burst ns @ [LayoutChange r_last, WindowResize,
                                             LayoutChange r_fire, Elapse d]) s)) = []
          \<and> bounceTimerToken (resizer (screen (run (burst ns @ [LayoutChange r_last, WindowResize,
                                             LayoutChange r_fire, Elapse d]) s))) = None
          \<and> calls (worker (run (burst ns @ [LayoutChange r_last, WindowResize,
                                       LayoutChange r_fire, Elapse d, Elapse d2]) s)) =
            calls (worker (run (burst ns @ [LayoutChange r_last, WindowResize,
                                       LayoutChange r_fire, Elapse d]) s))
       else timers (window (run (burst ns @ [LayoutChange r_last, WindowResize,
                                             LayoutChange r_fire, Elapse d]) s)) =
            timers (window (run (burst ns @ [LayoutChange r_last, WindowResize]) s)))"
proof -
  let ?t = "run (burst ns) s"
  let ?t1 = "step (LayoutChange r_last) ?t"
  let ?t2 = "step WindowResize ?t1"
  let ?t3 = "step (LayoutChange r_fire) ?t2"
  let ?t4 = "step (Elapse d) ?t3"
  note q = burst_quiet [OF assms]
  have i1: "timer_inv ?t1" "resizeListener (window ?t1)"
    using q by (simp_all add: timer_inv_def split: option.splits)
  note n = notify [OF i1]
  have r2: "run (burst ns @ [LayoutChange r_last, WindowResize]) s = ?t2"
    by (simp add: run_def)
  have r4: "run (burst ns @ [LayoutChange r_last, WindowResize, LayoutChange r_fire, Elapse d]) s = ?t4"
    by (simp add: run_def)
  have r5: "run (burst ns @ [LayoutChange r_last, WindowResize, LayoutChange r_fire, Elapse d, Elapse d2]) s
      = step (Elapse d2) ?t4"
    by (simp add: run_def)
  have c2: "calls (worker ?t2) = calls (worker s)"
    using n(3) q by simp
  have tm3: "timers (window ?t3) = [(nextTimer (window ?t1), now (window ?t3) + 1000)]"
    and rc3: "canvasRect (window ?t3) = r_fire"
    and w3: "worker ?t3 = worker ?t2"
    and tm32: "timers (window ?t3) = timers (window ?t2)"
    using n(1,5) by simp_all
  have a: "calls (worker ?t2) = calls (worker s)"
    and b: "map snd (timers (window ?t2)) = [now (window ?t2) + 1000]"
    and c: "map (Some \<circ> fst) (timers (window ?t2)) = [bounceTimerToken (resizer (screen ?t2))]"
    using c2 n(1,2,5) by simp_all
  show ?thesis
  proof (cases "1000 \<le> d")
    case True
    then have due: "now (window ?t3) + 1000 \<le> now (window ?t3) + d" by simp
    note f = elapse_fires [OF tm3 due]
    have idle: "step (Elapse d2) ?t4 = ?t4\<lparr>window := (window ?t4)\<lparr>now := now (window ?t4) + d2\<rparr>\<rparr>"
      by (rule elapse_idle [OF f(2)])
    have e: "calls (worker ?t4) = calls (worker s) @ [PostMessage (ResizeMsg (height r_fire) (width r_fire))]"
      using f(1) rc3 w3 c2 by simp
    have g: "calls (worker (step (Elapse d2) ?t4)) = calls (worker ?t4)"
      unfolding idle by simp
    show ?thesis
      unfolding r2 r4 r5 using True a b c e f(2,3) g by simp
  next
    case False
    then have p: "now (window ?t3) + d < now (window ?t3) + 1000" by simp
    have e: "?t4 = ?t3\<lparr>window := (window ?t3)\<lparr>now := now (window ?t3) + d\<rparr>\<rparr>"
      by (rule elapse_pending [OF tm3 p])
    have e1: "calls (worker ?t4) = calls (worker s)"
      and e2: "timers (window ?t4) = timers (window ?t2)"
      unfolding e using w3 c2 tm32 by simp_all
    show ?thesis
      unfolding r2 r4 r5 using False a b c e1 e2 by simp
  qed
qed


theorem resize_debounce_witness:
  "timer_inv live_page \<and> resizeListener (window live_page)
   \<and> posted (calls (worker (run (burst [(\<lparr>height = 500, width = 700\<rparr>, 100),
                                          (\<lparr>height = 520, width = 720\<rparr>, 100),
                                          (\<lparr>height = 560, width = 760\<rparr>, 100),
                                          (\<lparr>height = 580, width = 780\<rparr>, 100)]
         @ [LayoutChange \<lparr>height = 600, width = 800\<rparr>, WindowResize,
            LayoutChange \<lparr>height = 600, width = 800\<rparr>, Elapse 1000]) live_page)))
     = [StartMsg 480 640 False, ResizeMsg 600 800]"
proof -
  have h1: "timer_inv live_page" and h2: "resizeListener (window live_page)"
    by (simp_all add: timer_inv_def run_defs)
  have h3: "\<forall>(r, g) \<in> set [(\<lparr>height = 500, width = 700\<rparr>, 100 :: nat),
                                          (\<lparr>height = 520, width = 720\<rparr>, 100),
                                          (\<lparr>height = 560, width = 760\<rparr>, 100),
                                          (\<lparr>height = 580, width = 780\<rparr>, 100)]. g < 1000"
    by simp
  have c0: "posted (calls (worker live_page)) = [StartMsg 480 640 False]"
    by (simp add: run_defs)
  show ?thesis
    using resize_debounce [OF h1 h2 h3, of "\<lparr>height = 600, width = 800\<rparr>"
        "\<lparr>height = 600, width = 800\<rparr>" 1000 0] h1 h2 c0
    by (simp add: posted_append)
qed

text \<open>
  C2 as stated fails: the last notification arrives when the canvas is 800 by 600; the
  canvas becomes 400 by 300 with no further notification; the message sent when the timer
  fires carries 400 by 300.
\<close>

theorem resize_geometry_counterexample:
  "posted (calls (worker (run [LayoutChange \<lparr>height = 600, width = 800\<rparr>, WindowResize,
        LayoutChange \<lparr>height = 300, width = 400\<rparr>, Elapse 1000] live_page)))
     = [StartMsg 480 640 False, ResizeMsg 300 400]
   \<and> posted (calls (worker (run [LayoutChange \<lparr>height = 600, width = 800\<rparr>, WindowResize,
        LayoutChange \<lparr>height = 300, width = 400\<rparr>, Elapse 1000] live_page)))
     \<noteq> [StartMsg 480 640 False, ResizeMsg 600 800]"
  by (simp add: run_defs)

lemma timer_inv_cases:
  assumes "timer_inv s"
  obtains "timers (window s) = []" "bounceTimerToken (resizer (screen s)) = None"
  | k due where "timers (window s) = [(k, due)]" "bounceTimerToken (resizer (screen s)) = Some k"
proof (cases "bounceTimerToken (resizer (screen s))")
  case None
  with assms that(1) show ?thesis by (simp add: timer_inv_def)
next
  case (Some k)
  with assms have "map fst (timers (window s)) = [k]" by (simp add: timer_inv_def)
  then obtain due where "timers (window s) = [(k, due)]" by (cases "timers (window s)") auto
  with Some that(2) show ?thesis by blast
qed

lemma quiet_step:
  assumes "timer_inv s" "\<not> resizeListener (window s)" "resize_event e"
  shows "timer_inv (step e s) \<and> \<not> resizeListener (window (step e s))
    \<and> length (calls (worker (step e s))) + length (timers (window (step e s))) =
      length (calls (worker s)) + length (timers (window s))"
proof (cases e)
  case WindowResize
  with assms show ?thesis by simp
next
  case (LayoutChange r)
  with assms show ?thesis by (simp add: timer_inv_def split: option.splits)
next
  case (Elapse d)
  from assms(1) show ?thesis
  proof (cases rule: timer_inv_cases)
    case 1
    show ?thesis
      unfolding Elapse elapse_idle [OF 1(1)] using assms(2) 1 by (simp add: timer_inv_def)
  next
    case (2 k due)
    show ?thesis
    proof (cases "due \<le> now (window s) + d")
      case True
      note f = elapse_fires [OF 2(1) True]
      show ?thesis
        unfolding Elapse using f assms(2) 2 by (simp add: timer_inv_def)
    next
      case False
      then have p: "now (window s) + d < due" by simp
      show ?thesis
        unfolding Elapse elapse_pending [OF 2(1) p] using assms(2) 2 by (simp add: timer_inv_def)
    qed
  qed
qed (use assms(3) in simp_all)

lemma quiet_run:
  assumes "timer_inv s" "\<not> resizeListener (window s)" "\<forall>e \<in> set evs. resize_event e"
  shows "length (calls (worker (run evs s))) + length (timers (window (run evs s))) =
      length (calls (worker s)) + length (timers (window s))"
  using assms
proof (induction evs arbitrary: s)
  case Nil
  then show ?case by (simp add: run_def)
next
  case (Cons e evs)
  from Cons.prems(3) have e: "resize_event e" and rest: "\<forall>e \<in> set evs. resize_event e"
    by simp_all
  note q = quiet_step [OF Cons.prems(1,2) e]
  have "run (e # evs) s = run evs (step e s)" by (simp add: run_def)
  then show ?case
    using Cons.IH [of "step e s"] q rest by simp
qed

text \<open>
  C8, as amended. Teardown (\<^verbatim>\<open>exit\<close>) removes the resize listener, so that a later resize
  notification is not processed and arms no timer. It leaves a pending timer pending. From
  then on, under resize notifications, changes of the canvas and the passing of time, the
  messages sent plus the timers pending stay constant, and at most one timer is pending: the
  pending timer sends its one \<^verbatim>\<open>resize\<close> message when it is due, and no other message is
  sent.
\<close>

theorem teardown_keeps_timer:
  assumes "timer_inv s" and "\<forall>e \<in> set evs. resize_event e"
  shows "\<not> resizeListener (window (step (WorkerMessage Exit) s))
    \<and> timers (window (step (WorkerMessage Exit) s)) = timers (window s)
    \<and> step WindowResize (step (WorkerMessage Exit) s) = step (WorkerMessage Exit) s
    \<and> length (timers (window s)) \<le> 1
    \<and> length (calls (worker (run (WorkerMessage Exit # evs) s)))
        + length (timers (window (run (WorkerMessage Exit # evs) s))) =
      length (calls (worker s)) + length (timers (window s))
    \<and> (if timers (window s) \<noteq> [] \<and> snd (hd (timers (window s))) \<le> now (window s) + d
       then calls (worker (run [WorkerMessage Exit, Elapse d] s)) =
              calls (worker s) @ [PostMessage (ResizeMsg (height (canvasRect (window s)))
                                                        (width (canvasRect (window s))))]
       else calls (worker (run [WorkerMessage Exit, Elapse d] s)) = calls (worker s))"
proof -
  let ?x = "step (WorkerMessage Exit) s"
  have x: "?x = onVimExit s" by simp
  have i: "timer_inv ?x" and l: "\<not> resizeListener (window ?x)"
    and t: "timers (window ?x) = timers (window s)" and w: "worker ?x = worker s"
    and nw: "now (window ?x) = now (window s)" and cr: "canvasRect (window ?x) = canvasRect (window s)"
    using assms(1) by (simp_all add: onVimExit_def timer_inv_def split: option.splits)
  have nr: "step WindowResize ?x = ?x" using l by simp
  have le: "length (timers (window s)) \<le> 1"
    using assms(1) by (cases rule: timer_inv_cases) simp_all
  have cons: "length (calls (worker (run (WorkerMessage Exit # evs) s)))
        + length (timers (window (run (WorkerMessage Exit # evs) s))) =
      length (calls (worker s)) + length (timers (window s))"
    using quiet_run [OF i l assms(2)] t w by (simp add: run_def)
  have fire: "(if timers (window s) \<noteq> [] \<and> snd (hd (timers (window s))) \<le> now (window s) + d
       then calls (worker (run [WorkerMessage Exit, Elapse d] s)) =
              calls (worker s) @ [PostMessage (ResizeMsg (height (canvasRect (window s)))
                                                        (width (canvasRect (window s))))]
       else calls (worker (run [WorkerMessage Exit, Elapse d] s)) = calls (worker s))"
    using assms(1)
  proof (cases rule: timer_inv_cases)
    case 1
    have "step (Elapse d) ?x = ?x\<lparr>window := (window ?x)\<lparr>now := now (window ?x) + d\<rparr>\<rparr>"
      using 1(1) t by (intro elapse_idle) simp
    then show ?thesis using 1(1) w by (simp add: run_def del: step.simps(1))
  next
    case (2 k due)
    have tx: "timers (window ?x) = [(k, due)]" using 2(1) t by simp
    show ?thesis
    proof (cases "due \<le> now (window s) + d")
      case True
      then have "due \<le> now (window ?x) + d" using nw by simp
      from elapse_fires(1) [OF tx this] show ?thesis
        using True 2(1) w cr by (simp add: run_def del: step.simps(1))
    next
      case False
      then have "now (window ?x) + d < due" using nw by simp
      from elapse_pending [OF tx this] show ?thesis
        using False 2(1) w by (simp add: run_def del: step.simps(1))
    qed
  qed
  show ?thesis
    using l t nr le cons fire by blast
qed

theorem teardown_keeps_timer_witness:
  "timer_inv (run [LayoutChange \<lparr>height = 600, width = 800\<rparr>, WindowResize] live_page)
   \<and> timers (window (step (WorkerMessage Exit)
         (run [LayoutChange \<lparr>height = 600, width = 800\<rparr>, WindowResize] live_page))) = [(1, 1000)]
   \<and> posted (calls (worker (run [WorkerMessage Exit, Elapse 1000]
         (run [LayoutChange \<lparr>height = 600, width = 800\<rparr>, WindowResize] live_page))))
      = [StartMsg 480 640 False, ResizeMsg 600 800]"
proof -
  have h1: "timer_inv (run [LayoutChange \<lparr>height = 600, width = 800\<rparr>, WindowResize] live_page)"
    by (simp add: timer_inv_def run_defs)
  have h2: "\<forall>e \<in> set [WindowResize, Elapse 1000]. resize_event e" by simp
  have c0: "posted (calls (worker (run [LayoutChange \<lparr>height = 600, width = 800\<rparr>, WindowResize] live_page)))
      = [StartMsg 480 640 False]"
    and t0: "timers (window (run [LayoutChange \<lparr>height = 600, width = 800\<rparr>, WindowResize] live_page)) = [(1, 1000)]"
    and n0: "now (window (run [LayoutChange \<lparr>height = 600, width = 800\<rparr>, WindowResize] live_page)) = 0"
    and r0: "canvasRect (window (run [LayoutChange \<lparr>height = 600, width = 800\<rparr>, WindowResize] live_page))
       = \<lparr>height = 600, width = 800\<rparr>"
    by (simp_all add: run_defs)
  show ?thesis
    using teardown_keeps_timer [OF h1 h2, of 1000] h1 c0 t0 n0 r0
    by (simp add: posted_append del: step.simps(1))
qed

text \<open>
  C8 as stated fails: a notification arms the timer, the session exits, the timer is still
  pending, and 1000 ms later the \<^verbatim>\<open>resize\<close> message is sent.
\<close>

theorem teardown_timer_counterexample:
  "timers (window (run [LayoutChange \<lparr>height = 600, width = 800\<rparr>, WindowResize,
        WorkerMessage Exit] live_page)) = [(1, 1000)]
   \<and> posted (calls (worker (run [LayoutChange \<lparr>height = 600, width = 800\<rparr>, WindowResize,
        WorkerMessage Exit] live_page))) = [StartMsg 480 640 False]
   \<and> posted (calls (worker (run [LayoutChange \<lparr>height = 600, width = 800\<rparr>, WindowResize,
        WorkerMessage Exit, Elapse 1000] live_page))) = [StartMsg 480 640 False, ResizeMsg 600 800]"
  by (simp add: run_defs)

subsection \<open>The render queue\<close>


lemma fire_raf:
  "queue (screen (fire kt s)) = queue (screen s)"
  "rafScheduled (screen (fire kt s)) = rafScheduled (screen s)"
  "rafRequests (window (fire kt s)) = rafRequests (window s)"
  by (simp_all add: fire_def bounce_callback_def doResize_def Let_def)

lemma fold_fire_raf:
  "queue (screen (fold fire ts s)) = queue (screen s)
   \<and> rafScheduled (screen (fold fire ts s)) = rafScheduled (screen s)
   \<and> rafRequests (window (fold fire ts s)) = rafRequests (window s)"
  by (induction ts arbitrary: s) (simp_all add: fire_raf)

lemma step_raf:
  assumes "e \<noteq> AnimationFrame"
  shows "queue (screen (step e s)) = queue (screen s) @ draws [e]"
    and "rafScheduled (screen (step e s)) = (rafScheduled (screen s) \<or> draws [e] \<noteq> [])"
    and "rafRequests (window (step e s)) =
          (if draws [e] \<noteq> [] \<and> \<not> rafScheduled (screen s) then Suc (rafRequests (window s))
           else rafRequests (window s))"
proof -
  have "queue (screen (step e s)) = queue (screen s) @ draws [e]
    \<and> rafScheduled (screen (step e s)) = (rafScheduled (screen s) \<or> draws [e] \<noteq> [])
    \<and> rafRequests (window (step e s)) =
          (if draws [e] \<noteq> [] \<and> \<not> rafScheduled (screen s) then Suc (rafRequests (window s))
           else rafRequests (window s))"
  proof (cases e)
    case (WorkerMessage m)
    then show ?thesis
      by (cases m) (simp_all add: enqueue_def onVimInit_def onVimExit_def fatal_def Let_def)
  next
    case (Keydown k)
    then show ?thesis by simp
  next
    case WindowResize
    then show ?thesis
      by (simp add: onResize_def setTimeout_def clearTimeout_def Let_def split: option.splits)
  next
    case AnimationFrame
    with assms show ?thesis by simp
  next
    case (Elapse d)
    then show ?thesis by (simp add: elapse_def Let_def fold_fire_raf)
  next
    case (LayoutChange r)
    then show ?thesis by simp
  qed
  then show "queue (screen (step e s)) = queue (screen s) @ draws [e]"
    and "rafScheduled (screen (step e s)) = (rafScheduled (screen s) \<or> draws [e] \<noteq> [])"
    and "rafRequests (window (step e s)) =
          (if draws [e] \<noteq> [] \<and> \<not> rafScheduled (screen s) then Suc (rafRequests (window s))
           else rafRequests (window s))"
    by blast+
qed


















subsection \<open>Fatal and unknown messages\<close>

lemma relog_fields:
  "worker (relog a u s) = worker s"
  "screen (relog a u s) = screen s"
  "alerts (window (relog a u s)) = a"
  "uncaught (window (relog a u s)) = u"
  "relog a u (relog b v s) = relog a u s"
  by (simp_all add: relog_def)

lemma dpr_of_log: "dpr_of (win\<lparr>alerts := a, uncaught := u\<rparr>) = dpr_of win"
  by (simp add: dpr_of_def)

lemma apply_method_log:
  "apply_method (win\<lparr>alerts := a, uncaught := u\<rparr>) ev sc = apply_method win ev sc"
  by (cases ev)
    (simp_all add: drawRect_def drawText_def invertRect_def imageScroll_def dpr_of_log)

lemma queue_loop_log:
  "queue_loop (win\<lparr>alerts := a, uncaught := u\<rparr>) ms sc = queue_loop win ms sc"
  by (induction ms arbitrary: sc)
    (simp_all add: apply_method_log split: prod.splits option.splits)

lemma raf_callback_log: "\<exists>u'. raf_callback (relog a u s) = relog a u' (raf_callback s)"
proof -
  have q: "queue_loop (window (relog a u s)) (queue (screen (relog a u s))) (screen (relog a u s))
      = queue_loop (window s) (queue (screen s)) (screen s)"
    by (simp add: relog_def queue_loop_log)
  obtain r sc1 where l: "queue_loop (window s) (queue (screen s)) (screen s) = (r, sc1)"
    by (cases "queue_loop (window s) (queue (screen s)) (screen s)")
  show ?thesis
  proof (cases r)
    case None
    have "raf_callback (relog a u s) = relog a u (raf_callback s)"
      by (simp add: raf_callback_def onAnimationFrame_def q l None) (simp add: relog_def)
    then show ?thesis by blast
  next
    case (Some e)
    have "raf_callback (relog a u s) = relog a (u @ [e]) (raf_callback s)"
      by (simp add: raf_callback_def onAnimationFrame_def q l Some) (simp add: relog_def)
    then show ?thesis by blast
  qed
qed

lemma funpow_log: "\<exists>u'. (raf_callback ^^ n) (relog a u s) = relog a u' ((raf_callback ^^ n) s)"
proof (induction n)
  case 0
  show ?case by auto
next
  case (Suc n)
  then obtain u1 where 1: "(raf_callback ^^ n) (relog a u s) = relog a u1 ((raf_callback ^^ n) s)"
    by blast
  obtain u2 where 2: "raf_callback (relog a u1 ((raf_callback ^^ n) s)) =
      relog a u2 (raf_callback ((raf_callback ^^ n) s))"
    using raf_callback_log by blast
  have "(raf_callback ^^ Suc n) (relog a u s) = relog a u2 ((raf_callback ^^ Suc n) s)"
    by (simp add: 1 2)
  then show ?case by blast
qed

lemma fire_log: "fire kt (relog a u s) = relog a u (fire kt s)"
  by (simp add: fire_def bounce_callback_def doResize_def relog_def Let_def)

lemma fold_fire_log: "fold fire ts (relog a u s) = relog a u (fold fire ts s)"
  by (induction ts arbitrary: s) (simp_all add: fire_log)

lemma step_log: "\<exists>a' u'. step e (relog a u s) = relog a' u' (step e s)"
proof (cases e)
  case (WorkerMessage m)
  show ?thesis
  proof (cases m)
    case (Draw ev)
    have "step e (relog a u s) = relog a u (step e s)"
      by (simp add: WorkerMessage Draw enqueue_def relog_def Let_def)
    then show ?thesis by blast
  next
    case Started
    have "step e (relog a u s) = relog a u (step e s)"
      by (simp add: WorkerMessage Started onVimInit_def relog_def)
    then show ?thesis by blast
  next
    case Exit
    have "step e (relog a u s) = relog a u (step e s)"
      by (simp add: WorkerMessage Exit onVimExit_def relog_def)
    then show ?thesis by blast
  next
    case (Fatal msg)
    have "step e (relog a u s) = relog (a @ [msg]) (u @ [Error msg]) (step e s)"
      by (simp add: WorkerMessage Fatal fatal_def relog_def)
    then show ?thesis by blast
  next
    case (Other k)
    have "step e (relog a u s) =
        relog a (u @ [Error ''FATAL: Unexpected message from worker: [object Object]'']) (step e s)"
      by (simp add: WorkerMessage Other relog_def)
    then show ?thesis by blast
  qed
next
  case (Keydown k)
  have "step e (relog a u s) = relog a u (step e s)"
    by (simp add: Keydown relog_def)
  then show ?thesis by blast
next
  case WindowResize
  have "step e (relog a u s) = relog a u (step e s)"
    by (simp add: WindowResize relog_def onResize_def setTimeout_def clearTimeout_def Let_def
        split: option.splits)
  then show ?thesis by blast
next
  case AnimationFrame
  have z: "(relog a u s)\<lparr>window := (window (relog a u s))\<lparr>rafRequests := 0\<rparr>\<rparr>
      = relog a u (s\<lparr>window := (window s)\<lparr>rafRequests := 0\<rparr>\<rparr>)"
    and n: "rafRequests (window (relog a u s)) = rafRequests (window s)"
    by (simp_all add: relog_def)
  obtain u1 where "(raf_callback ^^ rafRequests (window s))
        (relog a u (s\<lparr>window := (window s)\<lparr>rafRequests := 0\<rparr>\<rparr>))
      = relog a u1 ((raf_callback ^^ rafRequests (window s))
          (s\<lparr>window := (window s)\<lparr>rafRequests := 0\<rparr>\<rparr>))"
    using funpow_log by blast
  then have "step e (relog a u s) = relog a u1 (step e s)"
    by (simp add: AnimationFrame animationFrame_def z n)
  then show ?thesis by blast
next
  case (Elapse d)
  have "step e (relog a u s) = relog a u (step e s)"
  proof -
    have t: "timers (window (relog a u s)) = timers (window s)"
      and n: "now (window (relog a u s)) = now (window s)"
      by (simp_all add: relog_def)
    show ?thesis
      by (simp add: Elapse elapse_def Let_def t n fold_fire_log) (simp add: relog_def)
  qed
  then show ?thesis by blast
next
  case (LayoutChange r)
  have "step e (relog a u s) = relog a u (step e s)"
    by (simp add: LayoutChange relog_def)
  then show ?thesis by blast
qed

lemma run_log: "\<exists>a' u'. run evs (relog a u s) = relog a' u' (run evs s)"
proof (induction evs arbitrary: a u s)
  case Nil
  show ?case by (auto simp: run_def)
next
  case (Cons e evs)
  obtain a1 u1 where 1: "step e (relog a u s) = relog a1 u1 (step e s)"
    using step_log by blast
  obtain a2 u2 where 2: "run evs (relog a1 u1 (step e s)) = relog a2 u2 (run evs (step e s))"
    using Cons.IH by blast
  have "run (e # evs) (relog a u s) = relog a2 u2 (run (e # evs) s)"
    using 1 2 by (simp add: run_def)
  then show ?case by blast
qed


lemmas session_defs = live_page_def run_def start_def new_VimWasm_def new_Window_def
  new_ScreenCanvas_def new_VimWorker_def onVimInit_def input_onVimInit_def focus_def
  sendMessage_def dpr_of_def Let_def fatal_def onKeydown_def awakeWorkerThread_def

text \<open>
  C4, as amended. On a \<^verbatim>\<open>fatal\<close> message the handler shows the message with \<^verbatim>\<open>alert\<close> and
  throws an error that carries it; on a message of an unknown kind it throws an error and
  shows nothing. Neither tears anything down: the only change to the page is the alert and
  the uncaught error, the listeners stay registered, and whatever events follow, the page
  handles them exactly as if the message had not arrived (same worker traffic, same screen,
  same window but for the two records).
\<close>

theorem fatal_message_effect:
  "fst (onMessage (Fatal m) s) = Some (Error m)
   \<and> fst (onMessage (Other k) s) =
       Some (Error ''FATAL: Unexpected message from worker: [object Object]'')
   \<and> step (WorkerMessage (Fatal m)) s =
       s\<lparr>window := (window s)\<lparr>alerts := alerts (window s) @ [m],
                               uncaught := uncaught (window s) @ [Error m]\<rparr>\<rparr>
   \<and> step (WorkerMessage (Other k)) s =
       s\<lparr>window := (window s)\<lparr>uncaught := uncaught (window s) @
              [Error ''FATAL: Unexpected message from worker: [object Object]'']\<rparr>\<rparr>
   \<and> relog [] [] (run evs (step (WorkerMessage (Fatal m)) s)) = relog [] [] (run evs s)
   \<and> relog [] [] (run evs (step (WorkerMessage (Other k)) s)) = relog [] [] (run evs s)
   \<and> worker (run evs (step (WorkerMessage (Fatal m)) s)) = worker (run evs s)
   \<and> screen (run evs (step (WorkerMessage (Fatal m)) s)) = screen (run evs s)
   \<and> worker (run evs (step (WorkerMessage (Other k)) s)) = worker (run evs s)
   \<and> screen (run evs (step (WorkerMessage (Other k)) s)) = screen (run evs s)"
proof -
  have f: "step (WorkerMessage (Fatal m)) s =
       s\<lparr>window := (window s)\<lparr>alerts := alerts (window s) @ [m],
                               uncaught := uncaught (window s) @ [Error m]\<rparr>\<rparr>"
    and o: "step (WorkerMessage (Other k)) s =
       s\<lparr>window := (window s)\<lparr>uncaught := uncaught (window s) @
              [Error ''FATAL: Unexpected message from worker: [object Object]'']\<rparr>\<rparr>"
    and e1: "fst (onMessage (Fatal m) s) = Some (Error m)"
    and e2: "fst (onMessage (Other k) s) =
       Some (Error ''FATAL: Unexpected message from worker: [object Object]'')"
    by (simp_all add: fatal_def)
  have fr: "step (WorkerMessage (Fatal m)) s =
      relog (alerts (window s) @ [m]) (uncaught (window s) @ [Error m]) s"
    unfolding f by (simp add: relog_def)
  have orl: "step (WorkerMessage (Other k)) s =
      relog (alerts (window s)) (uncaught (window s) @
              [Error ''FATAL: Unexpected message from worker: [object Object]'']) s"
    unfolding o by (simp add: relog_def)
  obtain a1 u1 where r1: "run evs (step (WorkerMessage (Fatal m)) s) = relog a1 u1 (run evs s)"
    unfolding fr using run_log by blast
  obtain a2 u2 where r2: "run evs (step (WorkerMessage (Other k)) s) = relog a2 u2 (run evs s)"
    unfolding orl using run_log by blast
  have g1: "relog [] [] (run evs (step (WorkerMessage (Fatal m)) s)) = relog [] [] (run evs s)"
    and g2: "worker (run evs (step (WorkerMessage (Fatal m)) s)) = worker (run evs s)"
    and g3: "screen (run evs (step (WorkerMessage (Fatal m)) s)) = screen (run evs s)"
    unfolding r1 by (simp_all only: relog_fields)
  have k1: "relog [] [] (run evs (step (WorkerMessage (Other k)) s)) = relog [] [] (run evs s)"
    and k2: "worker (run evs (step (WorkerMessage (Other k)) s)) = worker (run evs s)"
    and k3: "screen (run evs (step (WorkerMessage (Other k)) s)) = screen (run evs s)"
    unfolding r2 by (simp_all only: relog_fields)
  show ?thesis
    by (intro conjI) (rule e1 e2 f o g1 g2 g3 k1 k2 k3)+
qed

theorem fatal_message_effect_witness:
  "alerts (window (step (WorkerMessage (Fatal ''out of memory'')) live_page)) = [''out of memory'']
   \<and> posted (calls (worker (run [Keydown \<lparr>key = ''a'', code = ''KeyA'', keyCode = 65,
          ctrlKey = True, shiftKey = False, altKey = False, metaKey = False,
          defaultPrevented = False, propagationStopped = False\<rparr>]
        (step (WorkerMessage (Fatal ''out of memory'')) live_page))))
     = [StartMsg 480 640 False, KeyMsg ''KeyA'' 65 ''a'' True False False False]"
proof -
  let ?k = "\<lparr>key = ''a'', code = ''KeyA'', keyCode = 65,
          ctrlKey = True, shiftKey = False, altKey = False, metaKey = False,
          defaultPrevented = False, propagationStopped = False\<rparr>"
  note T = fatal_message_effect [of "''out of memory''" live_page "[]" "[Keydown ?k]"]
  have a: "step (WorkerMessage (Fatal ''out of memory'')) live_page =
       live_page\<lparr>window := (window live_page)\<lparr>alerts := alerts (window live_page) @ [''out of memory''],
           uncaught := uncaught (window live_page) @ [Error ''out of memory'']\<rparr>\<rparr>"
    by (rule T [THEN conjunct2, THEN conjunct2, THEN conjunct1])
  have w: "worker (run [Keydown ?k] (step (WorkerMessage (Fatal ''out of memory'')) live_page))
      = worker (run [Keydown ?k] live_page)"
    by (rule T [THEN conjunct2, THEN conjunct2, THEN conjunct2, THEN conjunct2, THEN conjunct2,
          THEN conjunct2, THEN conjunct1])
  have a0: "alerts (window live_page) = []" by (simp add: session_defs)
  have p: "posted (calls (worker (run [Keydown ?k] live_page)))
     = [StartMsg 480 640 False, KeyMsg ''KeyA'' 65 ''a'' True False False False]"
    by (simp add: session_defs)
  have c1: "alerts (window (step (WorkerMessage (Fatal ''out of memory'')) live_page)) = [''out of memory'']"
    unfolding a using a0 by simp
  have c2: "posted (calls (worker (run [Keydown ?k]
        (step (WorkerMessage (Fatal ''out of memory'')) live_page))))
     = [StartMsg 480 640 False, KeyMsg ''KeyA'' 65 ''a'' True False False False]"
    unfolding w by (rule p)
  show ?thesis
    using c1 c2 by (intro conjI)
qed

text \<open>
  C4 as stated fails: after \<^verbatim>\<open>fatal\<close> (or a message of unknown kind) in a live session the
  key and resize listeners are still registered, and the next keydown is sent to the worker.
\<close>

theorem fatal_teardown_counterexample:
  "keydownListener (input (screen (run [WorkerMessage (Fatal ''out of memory'')] live_page)))
   \<and> resizeListener (window (run [WorkerMessage (Fatal ''out of memory'')] live_page))
   \<and> posted (calls (worker (run [WorkerMessage (Fatal ''out of memory'')] live_page)))
     = [StartMsg 480 640 False]
   \<and> posted (calls (worker (run [WorkerMessage (Fatal ''out of memory''),
        Keydown \<lparr>key = ''a'', code = ''KeyA'', keyCode = 65,
          ctrlKey = True, shiftKey = False, altKey = False, metaKey = False,
          defaultPrevented = False, propagationStopped = False\<rparr>] live_page)))
     = [StartMsg 480 640 False, KeyMsg ''KeyA'' 65 ''a'' True False False False]
   \<and> keydownListener (input (screen (run [WorkerMessage (Other ''bogus'')] live_page)))
   \<and> resizeListener (window (run [WorkerMessage (Other ''bogus'')] live_page))"
  by (simp add: session_defs)

subsection \<open>Every reachable page\<close>

lemma glyph_paints_no_stroke:
  "list_ex rect_stroked (map (\<lambda>k. FillText (f k) (g k) yi fo fs tb) ks) = False"
  by (induction ks) simp_all

lemma drawText_painted:
  "list_ex rect_stroked (painted (ctx (drawText w str ch lh cw x y bold ul uc st sc))) =
     list_ex rect_stroked (painted (ctx sc))"
  by (simp add: drawText_unfold glyph_paints_no_stroke)

lemma apply_method_painted:
  "list_ex rect_stroked (painted (ctx (snd (apply_method w ev sc)))) =
     list_ex rect_stroked (painted (ctx sc))"
  by (cases ev)
    (simp_all add: setColorFG_def setColorBG_def setColorSP_def setFont_def drawRect_def
        drawText_painted invertRect_def imageScroll_def Let_def fillRect_def rect_def
        putImageData_def getImageData_def drawImage_def paint_on_def)

lemma apply_method_frame:
  "resizer (snd (apply_method w ev sc)) = resizer sc"
  "queue (snd (apply_method w ev sc)) = queue sc"
  "rafScheduled (snd (apply_method w ev sc)) = rafScheduled sc"
  by (cases ev;
      simp add: setColorFG_def setColorBG_def setColorSP_def setFont_def drawRect_def
        drawText_def invertRect_def imageScroll_def Let_def split: sum.splits)+

lemma queue_loop_frame:
  "resizer (snd (queue_loop w evs sc)) = resizer sc
   \<and> queue (snd (queue_loop w evs sc)) = queue sc
   \<and> rafScheduled (snd (queue_loop w evs sc)) = rafScheduled sc
   \<and> list_ex rect_stroked (painted (ctx (snd (queue_loop w evs sc)))) =
     list_ex rect_stroked (painted (ctx sc))"
proof (induction evs arbitrary: sc)
  case Nil
  show ?case by simp
next
  case (Cons ev evs)
  obtain r sc1 where a: "apply_method w ev sc = (r, sc1)"
    by (cases "apply_method w ev sc")
  have f: "resizer sc1 = resizer sc" "queue sc1 = queue sc" "rafScheduled sc1 = rafScheduled sc"
    "list_ex rect_stroked (painted (ctx sc1)) = list_ex rect_stroked (painted (ctx sc))"
    using apply_method_frame [of w ev sc] apply_method_painted [of w ev sc] by (simp_all add: a)
  show ?case
  proof (cases r)
    case None
    then show ?thesis using Cons.IH [of sc1] by (simp add: a f)
  next
    case (Some e)
    then show ?thesis by (simp add: a f)
  qed
qed

lemma raf_callback_frame:
  "resizer (screen (raf_callback s)) = resizer (screen s)"
  "timers (window (raf_callback s)) = timers (window s)"
  "rafRequests (window (raf_callback s)) = rafRequests (window s)"
  "list_ex rect_stroked (painted (ctx (screen (raf_callback s)))) =
     list_ex rect_stroked (painted (ctx (screen s)))"
  using queue_loop_frame [of "window s" "queue (screen s)" "screen s"]
  by (cases "queue_loop (window s) (queue (screen s)) (screen s)";
      cases "fst (queue_loop (window s) (queue (screen s)) (screen s))";
      simp add: raf_callback_def onAnimationFrame_def)+

lemma funpow_frame:
  "resizer (screen ((raf_callback ^^ n) s)) = resizer (screen s)
   \<and> timers (window ((raf_callback ^^ n) s)) = timers (window s)
   \<and> rafRequests (window ((raf_callback ^^ n) s)) = rafRequests (window s)
   \<and> list_ex rect_stroked (painted (ctx (screen ((raf_callback ^^ n) s)))) =
     list_ex rect_stroked (painted (ctx (screen s)))"
  by (induction n) (simp_all add: raf_callback_frame)

lemma fold_fire_ctx: "ctx (screen (fold fire ts s)) = ctx (screen s)"
  by (induction ts arbitrary: s)
    (simp_all add: fire_def bounce_callback_def doResize_def Let_def)

lemma step_rect_stroked:
  "list_ex rect_stroked (painted (ctx (screen (step e s)))) =
     list_ex rect_stroked (painted (ctx (screen s)))"
proof (cases e)
  case (WorkerMessage m)
  then show ?thesis
    by (cases m) (simp_all add: enqueue_def onVimInit_def onVimExit_def fatal_def Let_def)
next
  case WindowResize
  then show ?thesis
    by (simp add: onResize_def setTimeout_def clearTimeout_def Let_def split: option.splits)
next
  case AnimationFrame
  then show ?thesis by (simp add: animationFrame_def funpow_frame)
next
  case (Elapse d)
  then show ?thesis by (simp add: elapse_def Let_def fold_fire_ctx)
qed simp_all

text \<open>
  Whatever the page receives, no stroke ever painted holds a rectangle: the path that
  \<^verbatim>\<open>drawRect\<close> extends when \<^verbatim>\<open>filled\<close> is false is discarded by the \<^verbatim>\<open>beginPath\<close> that
  precedes every \<^verbatim>\<open>stroke\<close> of the source.
\<close>

lemma outline_never_stroked:
  "\<not> list_ex rect_stroked (painted (ctx (screen (run evs (new_page r dpr0 rast debugging)))))"
proof -
  have "list_ex rect_stroked (painted (ctx (screen (run evs s)))) =
      list_ex rect_stroked (painted (ctx (screen s)))" for s
    by (induction evs arbitrary: s) (simp_all add: run_def step_rect_stroked)
  then show ?thesis
    by (simp add: new_page_def start_def new_VimWasm_def new_ScreenCanvas_def Let_def)
qed

text \<open>
  The invariant that the theorems on the debouncer assume holds in every state the page can
  reach, and the constructor leaves the render queue idle. In every state the page can
  reach, also after a flush has raised, at most one callback is registered, and none unless
  a flush is marked as scheduled.
\<close>

lemma step_timer_inv:
  assumes "timer_inv s"
  shows "timer_inv (step e s)"
proof (cases e)
  case (WorkerMessage m)
  with assms show ?thesis
    by (cases m)
      (simp_all add: timer_inv_def enqueue_def onVimInit_def onVimExit_def fatal_def Let_def
        split: option.splits)
next
  case (Keydown k)
  with assms show ?thesis by (simp add: timer_inv_def split: option.splits)
next
  case WindowResize
  show ?thesis
  proof (cases "resizeListener (window s)")
    case True
    from notify(1,2) [OF assms True] show ?thesis
      unfolding WindowResize by (simp add: timer_inv_def)
  next
    case False
    with assms show ?thesis by (simp add: WindowResize)
  qed
next
  case AnimationFrame
  have "timer_inv (s\<lparr>window := (window s)\<lparr>rafRequests := 0\<rparr>\<rparr>)"
    using assms by (simp add: timer_inv_def split: option.splits)
  then show ?thesis
    unfolding AnimationFrame
    by (simp add: timer_inv_def animationFrame_def funpow_frame split: option.splits)
next
  case (Elapse d)
  from assms show ?thesis
  proof (cases rule: timer_inv_cases)
    case 1
    show ?thesis
      unfolding Elapse elapse_idle [OF 1(1)] using 1 by (simp add: timer_inv_def)
  next
    case (2 k due)
    show ?thesis
    proof (cases "due \<le> now (window s) + d")
      case True
      note f = elapse_fires [OF 2(1) True]
      show ?thesis
        unfolding Elapse using f by (simp add: timer_inv_def)
    next
      case False
      then have p: "now (window s) + d < due" by simp
      show ?thesis
        unfolding Elapse elapse_pending [OF 2(1) p] using 2 by (simp add: timer_inv_def)
    qed
  qed
next
  case (LayoutChange r)
  with assms show ?thesis by (simp add: timer_inv_def split: option.splits)
qed

lemma timer_inv_reachable: "timer_inv (run evs (new_page r dpr0 rast debugging))"
proof -
  have "timer_inv s \<Longrightarrow> timer_inv (run evs s)" for s
    by (induction evs arbitrary: s) (simp_all add: run_def step_timer_inv)
  moreover have "timer_inv (new_page r dpr0 rast debugging)"
    by (simp add: timer_inv_def new_page_def start_def new_VimWasm_def new_ScreenCanvas_def
        new_Window_def Let_def)
  ultimately show ?thesis by blast
qed

lemma flush_idle_new_page: "flush_idle (new_page r dpr0 rast debugging)"
  by (simp add: flush_idle_def new_page_def start_def new_VimWasm_def new_ScreenCanvas_def
      new_Window_def Let_def)

lemma step_raf_bound:
  assumes "raf_bound s"
  shows "raf_bound (step e s)"
proof (cases "e = AnimationFrame")
  case True
  then show ?thesis
    by (simp add: raf_bound_def animationFrame_def funpow_frame)
next
  case False
  then show ?thesis
    using assms by (auto simp: raf_bound_def step_raf [OF False])
qed

lemma raf_bound_reachable:
  "rafRequests (window (run evs (new_page r dpr0 rast debugging))) \<le> 1"
proof -
  have "raf_bound s \<Longrightarrow> raf_bound (run evs s)" for s
    by (induction evs arbitrary: s) (simp_all add: run_def step_raf_bound del: step.simps)
  moreover have "raf_bound (new_page r dpr0 rast debugging)"
    using flush_idle_new_page [of r dpr0 rast debugging]
    by (simp add: raf_bound_def flush_idle_def)
  ultimately have "raf_bound (run evs (new_page r dpr0 rast debugging))"
    by blast
  then show ?thesis
    by (simp add: raf_bound_def split: if_splits)
qed

end
